theory Spec2Isabelle
  imports Main "HOL-Library.AList" "HOL-Library.Multiset"
begin

section \<open>Data model (models.py)\<close>

text \<open>
  The enumerations of \<^verbatim>\<open>models.py\<close>. Their string values are display text only and
  play no part in any rule, so each enumeration is a plain datatype.
\<close>

datatype RoleType = WEREWOLF | VILLAGER | SEER | WITCH | HUNTER

datatype CampType = CAMP_WEREWOLF | CAMP_VILLAGER

datatype PhaseType = NIGHT | DAY | VOTE_PHASE

datatype ActionType = KILL | CHECK | SAVE | POISON | SHOOT | VOTE

text \<open>
  \<^verbatim>\<open>class Player\<close>. The field \<^verbatim>\<open>id\<close> is called \<open>pid\<close> here, because \<open>id\<close> is the
  identity function of HOL. Python integers are unbounded, hence \<open>int\<close>.
\<close>

record Player =
  pid :: int
  name :: string
  role :: "RoleType option"
  alive :: bool
  is_ai :: bool
  role_revealed :: bool
  has_antidote :: bool
  has_poison :: bool
  used_antidote_night :: "int option"
  used_poison_night :: "int option"

text \<open>
  \<^verbatim>\<open>class ActionRecord\<close>. The \<^verbatim>\<open>timestamp\<close> field is wall-clock time and is left out.
  The phase is a free string in the source (a Chinese literal); the two literals that the
  engine writes are rendered as \<open>''night''\<close> and \<open>''vote''\<close>.
\<close>

record ActionRecord =
  action_type :: ActionType
  player_id :: int
  target_id :: "int option"
  ar_phase :: string
  ar_round :: int

record NightActions =
  werewolf_kill :: "int option"
  seer_check :: "int option"
  witch_save :: "int option"
  witch_poison :: "int option"
  hunter_shoot :: "int option"

text \<open>The result string of a seer check: the source stores one of two literals.\<close>

datatype SeerResult = IS_WEREWOLF | IS_GOOD

text \<open>
  \<^verbatim>\<open>class GameState\<close>. The dictionary \<^verbatim>\<open>seer_results\<close> is an association list in
  insertion order, as a Python dict is.
\<close>

record GameState =
  current_round :: int
  phase :: PhaseType
  alive_players :: "int list"
  dead_players :: "int list"
  history :: "ActionRecord list"
  night_actions :: "NightActions option"
  knife_target :: "int option"
  seer_results :: "(int \<times> SeerResult) list"
  witch_saved :: "int list"
  witch_poisoned :: "int list"
  voted_player :: "int option"
  game_over :: bool
  winner :: "CampType option"

definition NightActions_new :: NightActions where
  "NightActions_new =
     \<lparr>werewolf_kill = None, seer_check = None, witch_save = None,
      witch_poison = None, hunter_shoot = None\<rparr>"

definition GameState_new :: GameState where
  "GameState_new =
     \<lparr>current_round = 1, phase = NIGHT, alive_players = [], dead_players = [],
      history = [], night_actions = None, knife_target = None, seer_results = [],
      witch_saved = [], witch_poisoned = [], voted_player = None, game_over = False,
      winner = None\<rparr>"

subsection \<open>GameState.check\_winner\<close>

text \<open>
  \<^verbatim>\<open>if self.winner: return self.winner\<close>: both members of \<^verbatim>\<open>CampType\<close> are non-empty
  strings, so the test is true exactly when a winner is stored. The counts are Python
  integers.
\<close>

definition check_winner :: "GameState \<Rightarrow> Player list \<Rightarrow> CampType option" where
  "check_winner gs ps =
     (case winner gs of
        Some w \<Rightarrow> Some w
      | None \<Rightarrow>
          (let alive_ps = filter alive ps;
               alive_werewolf_count = int (length (filter (\<lambda>p. role p = Some WEREWOLF) alive_ps))
           in if alive_werewolf_count = 0 then Some CAMP_VILLAGER
              else (let alive_good_count = int (length alive_ps) - alive_werewolf_count
                    in if alive_good_count \<le> alive_werewolf_count then Some CAMP_WEREWOLF
                       else None)))"

text \<open>The two counts the specification speaks of, each counted on its own.\<close>

definition aliveWerewolves :: "Player list \<Rightarrow> nat" where
  "aliveWerewolves ps = length (filter (\<lambda>p. alive p \<and> role p = Some WEREWOLF) ps)"

definition aliveGood :: "Player list \<Rightarrow> nat" where
  "aliveGood ps = length (filter (\<lambda>p. alive p \<and> role p \<noteq> Some WEREWOLF) ps)"


section \<open>Creating players and assigning roles (role\_assigner.py)\<close>

text \<open>\<^verbatim>\<open>Player(id=i, name=name, is_ai=is_ai)\<close>: every other field takes its default.\<close>

definition Player_new :: "int \<Rightarrow> string \<Rightarrow> bool \<Rightarrow> Player" where
  "Player_new i nm ai =
     \<lparr>pid = i, name = nm, role = None, alive = True, is_ai = ai, role_revealed = False,
      has_antidote = True, has_poison = True, used_antidote_night = None,
      used_poison_night = None\<rparr>"

text \<open>The decimal digits of a number, for the player's name (a prefix and the number).\<close>

fun decimal :: "nat \<Rightarrow> string" where
  "decimal n =
     (if n < 10 then [''0123456789'' ! n]
      else decimal (n div 10) @ [''0123456789'' ! (n mod 10)])"

declare decimal.simps [simp del]

definition player_name :: "nat \<Rightarrow> string" where
  "player_name i = ''player'' @ decimal i"

text \<open>
  Exceptions of the source as values; see the engine below for where each arises.
  \<open>StopIteration\<close> is the exception of \<^verbatim>\<open>next(...)\<close> on an exhausted generator; when it
  leaves a coroutine Python reports it as a \<^verbatim>\<open>RuntimeError\<close>, which is not told apart
  here. \<open>ActorError\<close> is any exception that an AI player's coroutine raises.
\<close>

datatype py_error =
  StopIteration | ValueError | IndexError | EOFError | AttributeError | ActorError

text \<open>
  \<^verbatim>\<open>RoleAssigner.create_players(num_players, spectator_mode)\<close>. The draw of
  \<^verbatim>\<open>random.randint(0, num_players - 1)\<close> is the parameter \<open>r\<close>; on an empty range
  (\<open>num_players \<le> 0\<close>) \<^verbatim>\<open>randint\<close> raises \<^verbatim>\<open>ValueError\<close>. \<^verbatim>\<open>range(num_players)\<close> is
  empty for a number below one.
\<close>

definition create_players :: "int \<Rightarrow> bool \<Rightarrow> nat \<Rightarrow> py_error + (Player list \<times> int option)" where
  "create_players n spectator r =
     (if \<not> spectator \<and> n \<le> 0 then Inl ValueError
      else
        (let human = (if spectator then None else Some (int (r mod nat n)))
         in Inr (map (\<lambda>i. Player_new (int i) (player_name i)
                             (spectator \<or> Some (int i) \<noteq> human)) [0..<nat n],
                 human)))"

text \<open>
  The fixed configuration of \<^verbatim>\<open>assign_roles\<close>, in the order of the dictionary literal, and
  the list built from it by \<^verbatim>\<open>role_list.extend([role] * count)\<close>.
\<close>

definition role_distribution :: "(RoleType \<times> nat) list" where
  "role_distribution = [(SEER, 1), (WITCH, 1), (HUNTER, 1), (VILLAGER, 3), (WEREWOLF, 3)]"

definition role_list :: "RoleType list" where
  "role_list = concat (map (\<lambda>(r, c). replicate c r) role_distribution)"

text \<open>
  The loop \<^verbatim>\<open>for i, player in enumerate(players): player.role = role_list[i]\<close>, from index
  \<open>i\<close> on. Reading past the end of the list raises \<^verbatim>\<open>IndexError\<close>.
\<close>

fun assign_from :: "nat \<Rightarrow> RoleType list \<Rightarrow> Player list \<Rightarrow> py_error + Player list" where
  "assign_from i rl [] = Inr []"
| "assign_from i rl (p # ps) =
     (if i < length rl
      then (case assign_from (Suc i) rl ps of
              Inl err \<Rightarrow> Inl err
            | Inr qs \<Rightarrow> Inr (p\<lparr>role := Some (rl ! i)\<rparr> # qs))
      else Inl IndexError)"

text \<open>
  \<^verbatim>\<open>RoleAssigner.assign_roles(players)\<close>. What \<^verbatim>\<open>random.shuffle\<close> does to the list is the
  parameter \<open>shuffle\<close>.
\<close>

definition assign_roles :: "(RoleType list \<Rightarrow> RoleType list) \<Rightarrow> Player list \<Rightarrow> py_error + Player list" where
  "assign_roles shuffle ps = assign_from 0 (shuffle role_list) ps"

section \<open>The engine (game\_engine.py)\<close>

text \<open>
  Where the exceptions arise. \<open>StopIteration\<close> is what \<^verbatim>\<open>next(...)\<close> without a
  default raises on an exhausted generator (inside a coroutine Python reports it as a
  \<^verbatim>\<open>RuntimeError\<close>); \<open>ValueError\<close> is what \<^verbatim>\<open>list.remove\<close> raises for an absent
  element; \<open>IndexError\<close> is an out-of-range index or \<^verbatim>\<open>random.choice\<close> of an empty
  list; \<open>EOFError\<close> is \<^verbatim>\<open>input()\<close> on an exhausted console; \<open>AttributeError\<close> is
  \<^verbatim>\<open>player.role.value\<close> for a player whose role is \<^verbatim>\<open>None\<close>; \<open>ActorError\<close> is any
  exception raised by an AI player's coroutine.
\<close>

text \<open>What awaiting a coroutine of an AI player gives: an exception or a value.\<close>

datatype 'a reply = Raises | Returns 'a

text \<open>
  \<^verbatim>\<open>class GameEngine\<close>. Of the dictionary \<^verbatim>\<open>ai_players\<close> only the keys matter to the
  engine's control flow; they are kept as a list.
\<close>

record Engine =
  enable_ai_mode :: bool
  spectator_mode :: bool
  players :: "Player list"
  game_state :: GameState
  ai_players :: "int list"
  num_players :: int
  human_player_id :: "int option"

text \<open>
  The console of the human player: the lines still to be read by \<^verbatim>\<open>input()\<close>, each line
  given by what \<^verbatim>\<open>int(line)\<close> makes of it (\<open>None\<close> when it raises \<^verbatim>\<open>ValueError\<close>).
  Reading from an exhausted console raises \<^verbatim>\<open>EOFError\<close>.
\<close>

type_synonym console = "int option list"

text \<open>
  An engine method either returns or raises; when it raises, the engine object keeps
  whatever the method had already written, so the error carries the engine as it was left.
\<close>

type_synonym 'a result = "(py_error \<times> Engine) + 'a"

definition final :: "Engine result \<Rightarrow> Engine" where
  "final r = (case r of Inl (err, e) \<Rightarrow> e | Inr e \<Rightarrow> e)"

definition final_c :: "(Engine \<times> console) result \<Rightarrow> Engine" where
  "final_c r = (case r of Inl (err, e) \<Rightarrow> e | Inr (e, cs) \<Rightarrow> e)"

text \<open>The exception with which a method left, if it raised.\<close>

definition error_of :: "'a result \<Rightarrow> py_error option" where
  "error_of r = (case r of Inl (err, e) \<Rightarrow> Some err | Inr x \<Rightarrow> None)"

text \<open>Python truthiness of an \<^verbatim>\<open>Optional[int]\<close>: \<^verbatim>\<open>None\<close> and \<open>0\<close> are false.\<close>

definition truthy :: "int option \<Rightarrow> bool" where
  "truthy v = (case v of None \<Rightarrow> False | Some n \<Rightarrow> n \<noteq> 0)"

text \<open>
  \<^verbatim>\<open>random.choice(xs)\<close>: the draw is a parameter \<open>r\<close>, and the element at position
  \<open>r mod length xs\<close> is chosen. \<open>pick\<close> is the choice from a list the caller has already
  found non-empty; \<open>random_choice\<close> is the unguarded call, which raises on an empty list.
\<close>

definition pick :: "nat \<Rightarrow> 'a list \<Rightarrow> 'a" where
  "pick r xs = xs ! (r mod length xs)"

definition random_choice :: "nat \<Rightarrow> 'a list \<Rightarrow> 'a option" where
  "random_choice r xs = (if xs = [] then None else Some (pick r xs))"

text \<open>
  \<^verbatim>\<open>player.alive = False\<close> for \<^verbatim>\<open>player = next(p for p in self.players if p.id == t)\<close>:
  the first player with that id is the object that is written.
\<close>

fun mark_dead :: "int \<Rightarrow> Player list \<Rightarrow> Player list" where
  "mark_dead t [] = []"
| "mark_dead t (p # ps) = (if pid p = t then p\<lparr>alive := False\<rparr> # ps else p # mark_dead t ps)"

text \<open>
  The four statements that the night resolution, the vote and the hunter's shot each
  repeat:
  \<^verbatim>\<open>
  player = next(p for p in self.players if p.id == t)
  player.alive = False
  self.game_state.alive_players.remove(t)
  self.game_state.dead_players.append(t)
  \<close>
\<close>

definition kill_player :: "int \<Rightarrow> Engine \<Rightarrow> Engine result" where
  "kill_player t e =
     (case find (\<lambda>p. pid p = t) (players e) of
        None \<Rightarrow> Inl (StopIteration, e)
      | Some player \<Rightarrow>
          (let e1 = e\<lparr>players := mark_dead t (players e)\<rparr>;
               gs = game_state e1
           in if t \<in> set (alive_players gs)
              then Inr (e1\<lparr>game_state := gs\<lparr>alive_players := remove1 t (alive_players gs),
                                               dead_players := dead_players gs @ [t]\<rparr>\<rparr>)
              else Inl (ValueError, e1)))"

subsection \<open>GameEngine.\_resolve\_night\_actions\<close>

text \<open>
  The list \<^verbatim>\<open>deaths\<close>. Both tests are truthiness tests of an \<^verbatim>\<open>Optional[int]\<close>:
  \<^verbatim>\<open>if night_actions.werewolf_kill and night_actions.werewolf_kill != night_actions.witch_save\<close>
  and \<^verbatim>\<open>if night_actions.witch_poison\<close>.
\<close>

definition night_deaths :: "NightActions \<Rightarrow> int list" where
  "night_deaths na =
     (case werewolf_kill na of
        None \<Rightarrow> []
      | Some k \<Rightarrow> if truthy (Some k) \<and> werewolf_kill na \<noteq> witch_save na then [k] else []) @
     (case witch_poison na of
        None \<Rightarrow> []
      | Some t \<Rightarrow> if truthy (Some t) then [t] else [])"

definition night_kill_record :: "int \<Rightarrow> int \<Rightarrow> ActionRecord" where
  "night_kill_record t rnd =
     \<lparr>action_type = KILL, player_id = 0, target_id = Some t, ar_phase = ''night'',
      ar_round = rnd\<rparr>"

text \<open>The body of \<^verbatim>\<open>for player_id in deaths\<close>.\<close>

definition night_death :: "int \<Rightarrow> Engine \<Rightarrow> Engine result" where
  "night_death t e =
     (case kill_player t e of
        Inl x \<Rightarrow> Inl x
      | Inr e1 \<Rightarrow>
          (let gs = game_state e1
           in Inr (e1\<lparr>game_state :=
                     gs\<lparr>history := history gs @ [night_kill_record t (current_round gs)]\<rparr>\<rparr>)))"

fun for_deaths :: "int list \<Rightarrow> Engine \<Rightarrow> Engine result" where
  "for_deaths [] e = Inr e"
| "for_deaths (t # ts) e =
     (case night_death t e of Inl x \<Rightarrow> Inl x | Inr e1 \<Rightarrow> for_deaths ts e1)"

definition resolve_night_actions :: "NightActions \<Rightarrow> Engine \<Rightarrow> Engine result" where
  "resolve_night_actions na e = for_deaths (night_deaths na) e"

subsection \<open>GameEngine.\_process\_werewolf\_action\<close>

text \<open>
  The method writes only the \<^verbatim>\<open>night_actions\<close> object it is given, which is returned
  here. \<open>ai_reply\<close> is what \<^verbatim>\<open>choose_werewolf_target\<close> gives when awaited; an exception
  of it is caught by the \<^verbatim>\<open>try\<close>. Each of the three calls of
  \<^verbatim>\<open>random.choice(potential_targets)\<close> is \<open>random_choice\<close>, which raises on an empty list;
  the one in the \<^verbatim>\<open>except\<close> block and the one after \<^verbatim>\<open>if target_id is None\<close> are not
  caught by anything.
\<close>

definition process_werewolf_action ::
    "int option reply \<Rightarrow> nat \<Rightarrow> Engine \<Rightarrow> NightActions \<Rightarrow> NightActions result" where
  "process_werewolf_action ai_reply r e na =
     (case filter (\<lambda>p. alive p \<and> role p = Some WEREWOLF) (players e) of
        [] \<Rightarrow> Inr na
      | w # _ \<Rightarrow>
          (let potential_targets = filter (\<lambda>p. alive p \<and> role p \<noteq> Some WEREWOLF) (players e);
               chosen = (case random_choice r potential_targets of
                           None \<Rightarrow> Inl IndexError
                         | Some target \<Rightarrow> Inr (Some (pid target)))
           in if potential_targets = [] then Inr na
              else
                (case (if enable_ai_mode e \<and> pid w \<in> set (ai_players e)
                       then (case ai_reply of
                               Returns (Some t) \<Rightarrow> Inr (Some t)
                             | Returns None \<Rightarrow> chosen
                             | Raises \<Rightarrow> chosen)
                       else chosen) of
                   Inl err \<Rightarrow> Inl (err, e)
                 | Inr None \<Rightarrow> Inr na
                 | Inr (Some t) \<Rightarrow> Inr (na\<lparr>werewolf_kill := Some t\<rparr>))))"

subsection \<open>GameEngine.\_process\_seer\_action\<close>

text \<open>
  The same shape, with \<^verbatim>\<open>unknown_players\<close> for the candidates; the check also writes the
  result into \<^verbatim>\<open>seer_results\<close> when the target is a player.
\<close>

definition process_seer_action ::
    "int option reply \<Rightarrow> nat \<Rightarrow> Engine \<Rightarrow> NightActions \<Rightarrow> (NightActions \<times> Engine) result" where
  "process_seer_action ai_reply r e na =
     (case filter (\<lambda>p. alive p \<and> role p = Some SEER) (players e) of
        [] \<Rightarrow> Inr (na, e)
      | seer # _ \<Rightarrow>
          (let unknown_players = filter (\<lambda>p. alive p \<and> pid p \<noteq> pid seer) (players e);
               chosen = (case random_choice r unknown_players of
                           None \<Rightarrow> Inl IndexError
                         | Some target \<Rightarrow> Inr (Some (pid target)))
           in if unknown_players = [] then Inr (na, e)
              else
                (case (if enable_ai_mode e \<and> pid seer \<in> set (ai_players e)
                       then (case ai_reply of
                               Returns (Some t) \<Rightarrow> Inr (Some t)
                             | Returns None \<Rightarrow> chosen
                             | Raises \<Rightarrow> chosen)
                       else chosen) of
                   Inl err \<Rightarrow> Inl (err, e)
                 | Inr None \<Rightarrow> Inr (na, e)
                 | Inr (Some t) \<Rightarrow>
                     (let na1 = na\<lparr>seer_check := Some t\<rparr>
                      in case find (\<lambda>p. pid p = t) (players e) of
                           None \<Rightarrow> Inr (na1, e)
                         | Some target \<Rightarrow>
                             (let verdict = (if role target = Some WEREWOLF
                                             then IS_WEREWOLF else IS_GOOD);
                                  gs = game_state e
                              in Inr (na1,
                                      e\<lparr>game_state :=
                                          gs\<lparr>seer_results :=
                                               AList.update t verdict (seer_results gs)\<rparr>\<rparr>))))))"

subsection \<open>GameEngine.\_process\_witch\_action\<close>

text \<open>
  The dictionary that \<^verbatim>\<open>choose_witch_action\<close> returns: a flag under \<^verbatim>\<open>"save"\<close> and an
  optional target under \<^verbatim>\<open>"poison"\<close>.
\<close>

record WitchAction =
  save :: bool
  poison :: "int option"

text \<open>Writing to \<^verbatim>\<open>witches[0]\<close>: the first element that satisfies the filter is changed.\<close>

fun update_first :: "('a \<Rightarrow> bool) \<Rightarrow> ('a \<Rightarrow> 'a) \<Rightarrow> 'a list \<Rightarrow> 'a list" where
  "update_first P f [] = []"
| "update_first P f (x # xs) = (if P x then f x # xs else x # update_first P f xs)"

definition living_witch :: "Player \<Rightarrow> bool" where
  "living_witch p = (alive p \<and> role p = Some WITCH)"

text \<open>The four statements of the antidote branch, for the kill target \<open>k\<close>.\<close>

definition use_antidote :: "int \<Rightarrow> int \<Rightarrow> Engine \<Rightarrow> NightActions \<Rightarrow> NightActions \<times> Engine" where
  "use_antidote k night e na =
     (na\<lparr>witch_save := Some k\<rparr>,
      e\<lparr>players :=
          update_first living_witch
            (\<lambda>w. w\<lparr>has_antidote := False, used_antidote_night := Some night\<rparr>) (players e),
        game_state := (game_state e)\<lparr>witch_saved := witch_saved (game_state e) @ [k]\<rparr>\<rparr>)"

text \<open>The four statements of the poison branch, for the poison target \<open>t\<close>.\<close>

definition use_poison :: "int \<Rightarrow> int \<Rightarrow> Engine \<Rightarrow> NightActions \<Rightarrow> NightActions \<times> Engine" where
  "use_poison t night e na =
     (na\<lparr>witch_poison := Some t\<rparr>,
      e\<lparr>players :=
          update_first living_witch
            (\<lambda>w. w\<lparr>has_poison := False, used_poison_night := Some night\<rparr>) (players e),
        game_state := (game_state e)\<lparr>witch_poisoned := witch_poisoned (game_state e) @ [t]\<rparr>\<rparr>)"

text \<open>
  The await of \<^verbatim>\<open>choose_witch_action\<close> stands in no \<^verbatim>\<open>try\<close>: an exception of the AI
  player leaves the method. \<^verbatim>\<open>witch_action.get("poison")\<close> and, in the branch without AI,
  \<^verbatim>\<open>night_actions.werewolf_kill\<close> are tested by truthiness. Where \<open>can_save\<close> holds the
  kill target is not \<^verbatim>\<open>None\<close>, so the \<open>None\<close> cases below are never taken.
\<close>

definition process_witch_action ::
    "WitchAction reply \<Rightarrow> Engine \<Rightarrow> NightActions \<Rightarrow> (NightActions \<times> Engine) result" where
  "process_witch_action ai_reply e na =
     (case filter living_witch (players e) of
        [] \<Rightarrow> Inr (na, e)
      | witch # _ \<Rightarrow>
          (let can_save = (has_antidote witch \<and> werewolf_kill na \<noteq> None);
               can_poison = has_poison witch;
               night = current_round (game_state e)
           in if enable_ai_mode e \<and> pid witch \<in> set (ai_players e)
              then (case ai_reply of
                      Raises \<Rightarrow> Inl (ActorError, e)
                    | Returns witch_action \<Rightarrow>
                        if save witch_action \<and> can_save
                        then (case werewolf_kill na of
                                None \<Rightarrow> Inr (na, e)
                              | Some k \<Rightarrow> Inr (use_antidote k night e na))
                        else if truthy (poison witch_action) \<and> can_poison
                        then (case poison witch_action of
                                None \<Rightarrow> Inr (na, e)
                              | Some t \<Rightarrow> Inr (use_poison t night e na))
                        else Inr (na, e))
              else if night = 1 \<and> can_save \<and> truthy (werewolf_kill na)
              then (case werewolf_kill na of
                      None \<Rightarrow> Inr (na, e)
                    | Some k \<Rightarrow> Inr (use_antidote k 1 e na))
              else Inr (na, e)))"

subsection \<open>GameEngine.\_process\_night\_phase\<close>

text \<open>What the outside world supplies during one night.\<close>

record NightEnv =
  ai_werewolf :: "int option reply"
  rnd_werewolf :: nat
  ai_seer :: "int option reply"
  rnd_seer :: nat
  ai_witch :: "WitchAction reply"

definition process_night_phase :: "NightEnv \<Rightarrow> Engine \<Rightarrow> Engine result" where
  "process_night_phase env e =
     (let e0 = e\<lparr>game_state := (game_state e)\<lparr>phase := NIGHT\<rparr>\<rparr>
      in case process_werewolf_action (ai_werewolf env) (rnd_werewolf env) e0 NightActions_new of
           Inl x \<Rightarrow> Inl x
         | Inr na1 \<Rightarrow>
             (case process_seer_action (ai_seer env) (rnd_seer env) e0 na1 of
                Inl x \<Rightarrow> Inl x
              | Inr (na2, e2) \<Rightarrow>
                  (case process_witch_action (ai_witch env) e2 na2 of
                     Inl x \<Rightarrow> Inl x
                   | Inr (na3, e3) \<Rightarrow>
                       resolve_night_actions na3
                         (e3\<lparr>game_state := (game_state e3)\<lparr>night_actions := Some na3\<rparr>\<rparr>))))"

subsection \<open>GameEngine.\_process\_day\_phase\<close>

text \<open>
  Speeches change nothing in the engine; what matters is that \<^verbatim>\<open>generate_speech\<close> may
  raise and that the human player's speech takes one line from the console.
\<close>

fun day_speeches ::
    "(int \<Rightarrow> unit reply) \<Rightarrow> console \<Rightarrow> Player list \<Rightarrow> Engine \<Rightarrow> (Engine \<times> console) result" where
  "day_speeches ai cs [] e = Inr (e, cs)"
| "day_speeches ai cs (player # rest) e =
     (if is_ai player \<and> enable_ai_mode e \<and> pid player \<in> set (ai_players e)
      then (case ai (pid player) of
              Raises \<Rightarrow> Inl (ActorError, e)
            | Returns _ \<Rightarrow> day_speeches ai cs rest e)
      else if \<not> spectator_mode e \<and> Some (pid player) = human_player_id e
      then (case cs of
              [] \<Rightarrow> Inl (EOFError, e)
            | _ # cs' \<Rightarrow> day_speeches ai cs' rest e)
      else day_speeches ai cs rest e)"

definition process_day_phase ::
    "(int \<Rightarrow> unit reply) \<Rightarrow> console \<Rightarrow> Engine \<Rightarrow> (Engine \<times> console) result" where
  "process_day_phase ai cs e =
     (let e1 = e\<lparr>game_state := (game_state e)\<lparr>phase := DAY\<rparr>\<rparr>
      in day_speeches ai cs (filter alive (players e1)) e1)"

subsection \<open>GameEngine.\_process\_hunter\_shoot\<close>

text \<open>
  The human hunter's loop. \<open>valid\<close> is \<^verbatim>\<open>[p.id for p in alive_players]\<close>, computed once
  before the loop. The \<^verbatim>\<open>try\<close> encloses the four kill statements as well, so a
  \<^verbatim>\<open>ValueError\<close> of \<^verbatim>\<open>list.remove\<close> is caught like one of \<^verbatim>\<open>int(...)\<close> and the loop
  asks again.
\<close>

fun human_hunter_loop :: "int list \<Rightarrow> console \<Rightarrow> Engine \<Rightarrow> (Engine \<times> console) result" where
  "human_hunter_loop valid [] e = Inl (EOFError, e)"
| "human_hunter_loop valid (line # cs) e =
     (case line of
        None \<Rightarrow> human_hunter_loop valid cs e
      | Some t \<Rightarrow>
          if t \<in> set valid
          then (case kill_player t e of
                  Inr e1 \<Rightarrow> Inr (e1, cs)
                | Inl (err, e1) \<Rightarrow>
                    if err = ValueError then human_hunter_loop valid cs e1
                    else Inl (err, e1))
          else human_hunter_loop valid cs e)"

text \<open>
  \<open>ai_reply\<close> is what \<^verbatim>\<open>choose_hunter_target\<close> gives when awaited (no \<^verbatim>\<open>try\<close> encloses
  it), \<open>r\<close> the draw of \<^verbatim>\<open>random.choice(alive_players)\<close>. The method appends nothing to
  the history.
\<close>

definition process_hunter_shoot ::
    "int option reply \<Rightarrow> nat \<Rightarrow> console \<Rightarrow> Player \<Rightarrow> Engine \<Rightarrow> (Engine \<times> console) result" where
  "process_hunter_shoot ai_reply r cs hunter e =
     (if \<not> spectator_mode e \<and> Some (pid hunter) = human_player_id e
      then human_hunter_loop (map pid (filter alive (players e))) cs e
      else
        (case (if enable_ai_mode e \<and> pid hunter \<in> set (ai_players e)
               then (case ai_reply of
                       Raises \<Rightarrow> Inl ActorError
                     | Returns tid \<Rightarrow> Inr tid)
               else (case random_choice r (filter alive (players e)) of
                       None \<Rightarrow> Inl IndexError
                     | Some target \<Rightarrow> Inr (Some (pid target)))) of
           Inl err \<Rightarrow> Inl (err, e)
         | Inr None \<Rightarrow> Inl (StopIteration, e)
         | Inr (Some t) \<Rightarrow>
             (case kill_player t e of
                Inl x \<Rightarrow> Inl x
              | Inr e1 \<Rightarrow> Inr (e1, cs))))"

subsection \<open>GameEngine.\_process\_vote\_phase\<close>

text \<open>What the outside world supplies during one vote, keyed by the voter's id.\<close>

record VoteEnv =
  ai_vote :: "int \<Rightarrow> int option reply"
  rnd_vote :: "int \<Rightarrow> nat"
  ai_hunter :: "int option reply"
  rnd_hunter :: nat

text \<open>
  The human voter's loop: lines are read until one is an integer among the valid targets.
  The result is the target and the rest of the console, or \<open>None\<close> when the console runs
  out.
\<close>

fun human_vote_loop :: "int list \<Rightarrow> console \<Rightarrow> (int \<times> console) option" where
  "human_vote_loop valid [] = None"
| "human_vote_loop valid (line # cs) =
     (case line of
        None \<Rightarrow> human_vote_loop valid cs
      | Some t \<Rightarrow> if t \<in> set valid then Some (t, cs) else human_vote_loop valid cs)"

text \<open>
  The dictionary \<^verbatim>\<open>votes\<close> (voter id to target) as an association list in insertion
  order. A target is an \<^verbatim>\<open>Optional[int]\<close>: the AI player may return \<^verbatim>\<open>None\<close>, and the
  engine stores what it gets.
\<close>

type_synonym votes = "(int \<times> int option) list"

text \<open>The loop \<^verbatim>\<open>for voter in alive_players\<close>, over the voters still to come.\<close>

fun collect_votes ::
    "VoteEnv \<Rightarrow> Engine \<Rightarrow> Player list \<Rightarrow> Player list \<Rightarrow> votes \<Rightarrow> console
       \<Rightarrow> (votes \<times> console) result" where
  "collect_votes env e alive_ps [] vs cs = Inr (vs, cs)"
| "collect_votes env e alive_ps (voter # rest) vs cs =
     (if is_ai voter \<and> enable_ai_mode e \<and> pid voter \<in> set (ai_players e)
      then (case ai_vote env (pid voter) of
              Raises \<Rightarrow> Inl (ActorError, e)
            | Returns tid \<Rightarrow>
                collect_votes env e alive_ps rest (AList.update (pid voter) tid vs) cs)
      else if \<not> spectator_mode e \<and> Some (pid voter) = human_player_id e
      then (case human_vote_loop
                   (map pid (filter (\<lambda>p. pid p \<noteq> pid voter) alive_ps)) cs of
              None \<Rightarrow> Inl (EOFError, e)
            | Some (tid, cs') \<Rightarrow>
                collect_votes env e alive_ps rest
                  (AList.update (pid voter) (Some tid) vs) cs')
      else (case random_choice (rnd_vote env (pid voter))
                   (map pid (filter (\<lambda>p. pid p \<noteq> pid voter) alive_ps)) of
              None \<Rightarrow> Inl (IndexError, e)
            | Some tid \<Rightarrow>
                collect_votes env e alive_ps rest
                  (AList.update (pid voter) (Some tid) vs) cs))"

text \<open>
  The dictionary \<^verbatim>\<open>vote_counts\<close>, built by
  \<^verbatim>\<open>vote_counts[target_id] = vote_counts.get(target_id, 0) + 1\<close> over \<^verbatim>\<open>votes.values()\<close>.
\<close>

definition count_votes :: "votes \<Rightarrow> (int option \<times> int) list" where
  "count_votes vs =
     foldl (\<lambda>vc t. AList.update t ((case map_of vc t of None \<Rightarrow> 0 | Some c \<Rightarrow> c) + 1) vc)
       [] (map snd vs)"

definition vote_record :: "int \<Rightarrow> int \<Rightarrow> ActionRecord" where
  "vote_record t rnd =
     \<lparr>action_type = VOTE, player_id = 0, target_id = Some t, ar_phase = ''vote'',
      ar_round = rnd\<rparr>"

text \<open>\<^verbatim>\<open>self.game_state.voted_player = eliminated_id\<close>.\<close>

definition set_voted :: "int \<Rightarrow> Engine \<Rightarrow> Engine" where
  "set_voted t e1 = e1\<lparr>game_state := (game_state e1)\<lparr>voted_player := Some t\<rparr>\<rparr>"

text \<open>
  The engine right after a vote has removed player \<open>t\<close> and recorded it: the four kill
  statements have run before, then \<^verbatim>\<open>voted_player\<close> is set and the vote record appended.
\<close>

definition record_vote :: "int \<Rightarrow> Engine \<Rightarrow> Engine" where
  "record_vote t e1 =
     (let gs = game_state (set_voted t e1)
      in (set_voted t e1)\<lparr>game_state :=
             gs\<lparr>history := history gs @ [vote_record t (current_round gs)]\<rparr>\<rparr>)"

text \<open>
  The branch \<^verbatim>\<open>if len(eliminated_players) == 1\<close>. The id may be \<^verbatim>\<open>None\<close> (a target an AI
  player returned), for which \<^verbatim>\<open>next(...)\<close> finds no player. Between setting
  \<^verbatim>\<open>voted_player\<close> and appending the record the method prints \<^verbatim>\<open>player.role.value\<close>,
  which raises \<^verbatim>\<open>AttributeError\<close> for a player without a role.
\<close>

definition eliminate :: "VoteEnv \<Rightarrow> console \<Rightarrow> int option \<Rightarrow> Engine \<Rightarrow> (Engine \<times> console) result" where
  "eliminate env cs eliminated_id e =
     (case eliminated_id of
        None \<Rightarrow> Inl (StopIteration, e)
      | Some t \<Rightarrow>
          (case find (\<lambda>p. pid p = t) (players e) of
             None \<Rightarrow> Inl (StopIteration, e)
           | Some player \<Rightarrow>
               (case kill_player t e of
                  Inl x \<Rightarrow> Inl x
                | Inr e1 \<Rightarrow>
                    (case role player of
                       None \<Rightarrow> Inl (AttributeError, set_voted t e1)
                     | Some rl \<Rightarrow>
                         if rl = HUNTER
                         then process_hunter_shoot (ai_hunter env) (rnd_hunter env) cs player
                                (record_vote t e1)
                         else Inr (record_vote t e1, cs)))))"

text \<open>The tally and what follows it, for the votes collected.\<close>

definition resolve_votes :: "VoteEnv \<Rightarrow> console \<Rightarrow> votes \<Rightarrow> Engine \<Rightarrow> (Engine \<times> console) result" where
  "resolve_votes env cs vs e =
     (let vote_counts = count_votes vs
      in case map snd vote_counts of
           [] \<Rightarrow> Inr (e, cs)
         | c # rest \<Rightarrow>
             (let max_votes = foldl max c rest;
                  eliminated_players = map fst (filter (\<lambda>(t, n). n = max_votes) vote_counts)
              in case eliminated_players of
                   [eliminated_id] \<Rightarrow> eliminate env cs eliminated_id e
                 | _ \<Rightarrow> Inr (e, cs)))"

definition process_vote_phase :: "VoteEnv \<Rightarrow> console \<Rightarrow> Engine \<Rightarrow> (Engine \<times> console) result" where
  "process_vote_phase env cs e =
     (let e1 = e\<lparr>game_state := (game_state e)\<lparr>phase := VOTE_PHASE\<rparr>\<rparr>;
          alive_ps = filter alive (players e1)
      in case collect_votes env e1 alive_ps alive_ps [] cs of
           Inl x \<Rightarrow> Inl x
         | Inr (vs, cs1) \<Rightarrow> resolve_votes env cs1 vs e1)"

subsection \<open>GameEngine.initialize\_game and GameEngine.run\_game\_loop\<close>

text \<open>\<^verbatim>\<open>GameEngine(enable_ai_mode, spectator_mode)\<close>.\<close>

definition GameEngine_new :: "bool \<Rightarrow> bool \<Rightarrow> Engine" where
  "GameEngine_new ai spectator =
     \<lparr>enable_ai_mode = ai, spectator_mode = spectator, players = [],
      game_state = GameState_new, ai_players = [], num_players = 9,
      human_player_id = None\<rparr>"

text \<open>
  \<^verbatim>\<open>initialize_game\<close> returns \<^verbatim>\<open>True\<close> with the engine set up, returns \<^verbatim>\<open>False\<close> when a
  step raised an \<^verbatim>\<open>Exception\<close>, or leaves with \<^verbatim>\<open>SystemExit\<close> when the AI client cannot
  be initialised (\<open>client_ok\<close> says whether it can). \<open>r\<close> is the draw for the human seat and
  \<open>shuffle\<close> the effect of \<^verbatim>\<open>random.shuffle\<close>.
\<close>

datatype init_result = InitOk Engine | InitFailed | InitSystemExit

text \<open>\<^verbatim>\<open>self.ai_players[player.id] = AIPlayer(...)\<close>, on the keys of the dictionary.\<close>

definition add_key :: "int list \<Rightarrow> int \<Rightarrow> int list" where
  "add_key ks k = (if k \<in> set ks then ks else ks @ [k])"

definition initialize_game ::
    "nat \<Rightarrow> (RoleType list \<Rightarrow> RoleType list) \<Rightarrow> bool \<Rightarrow> Engine \<Rightarrow> init_result" where
  "initialize_game r shuffle client_ok e =
     (case create_players (num_players e) (spectator_mode e) r of
        Inl err \<Rightarrow> InitFailed
      | Inr (created, human) \<Rightarrow>
          (case assign_roles shuffle created of
             Inl err \<Rightarrow> InitFailed
           | Inr ps \<Rightarrow>
               if enable_ai_mode e \<and> \<not> client_ok then InitSystemExit
               else InitOk
                      (e\<lparr>players := ps,
                         human_player_id := human,
                         game_state := GameState_new\<lparr>alive_players := map pid ps\<rparr>,
                         ai_players :=
                           (if enable_ai_mode e
                            then foldl add_key (ai_players e) (map pid (filter is_ai ps))
                            else ai_players e)\<rparr>)))"

text \<open>What the outside world supplies during one round of the loop.\<close>

record RoundEnv =
  night_env :: NightEnv
  ai_speech :: "int \<Rightarrow> unit reply"
  vote_env :: VoteEnv

definition declare_winner :: "CampType \<Rightarrow> Engine \<Rightarrow> Engine" where
  "declare_winner w e = e\<lparr>game_state := (game_state e)\<lparr>winner := Some w, game_over := True\<rparr>\<rparr>"

definition next_round :: "Engine \<Rightarrow> Engine" where
  "next_round e =
     e\<lparr>game_state := (game_state e)\<lparr>current_round := current_round (game_state e) + 1\<rparr>\<rparr>"

text \<open>
  \<^verbatim>\<open>_display_game_result\<close>, called when the loop has ended: it prints
  \<^verbatim>\<open>player.role.value\<close> for every player and changes nothing.
\<close>

definition display_game_result :: "Engine \<Rightarrow> Engine result" where
  "display_game_result e =
     (if list_all (\<lambda>p. role p \<noteq> None) (players e) then Inr e else Inl (AttributeError, e))"

text \<open>
  \<^verbatim>\<open>run_game_loop\<close>: the \<^verbatim>\<open>while not self.game_state.game_over\<close> loop, one element of the
  list of round environments per iteration that reaches the night, and the display of the
  result after it. The result is \<open>None\<close> when the environments run out while the game is
  still going; otherwise the method has ended, by returning or by an exception that left
  it.
\<close>

fun run_game_loop :: "RoundEnv list \<Rightarrow> console \<Rightarrow> Engine \<Rightarrow> Engine result option" where
  "run_game_loop envs cs e =
     (if game_over (game_state e) then Some (display_game_result e)
      else
        (case check_winner (game_state e) (players e) of
           Some w \<Rightarrow> Some (display_game_result (declare_winner w e))
         | None \<Rightarrow>
             (case envs of
                [] \<Rightarrow> None
              | env # rest \<Rightarrow>
                  (case process_night_phase (night_env env) e of
                     Inl x \<Rightarrow> Some (Inl x)
                   | Inr e1 \<Rightarrow>
                       (case check_winner (game_state e1) (players e1) of
                          Some w \<Rightarrow> Some (display_game_result (declare_winner w e1))
                        | None \<Rightarrow>
                            (case process_day_phase (ai_speech env) cs e1 of
                               Inl x \<Rightarrow> Some (Inl x)
                             | Inr (e2, cs2) \<Rightarrow>
                                 (case process_vote_phase (vote_env env) cs2 e2 of
                                    Inl x \<Rightarrow> Some (Inl x)
                                  | Inr (e3, cs3) \<Rightarrow>
                                      run_game_loop rest cs3 (next_round e3))))))))"

declare run_game_loop.simps [simp del]

subsection \<open>WerewolfGame.start (main.py)\<close>

text \<open>
  \<^verbatim>\<open>start\<close> returns at once when \<^verbatim>\<open>initialize_game\<close> gives \<^verbatim>\<open>False\<close>; otherwise it runs the
  game loop, and an \<^verbatim>\<open>Exception\<close> that leaves the loop ends the game with an error
  message. \<^verbatim>\<open>SystemExit\<close> is not an \<^verbatim>\<open>Exception\<close> and ends the process.
\<close>

datatype game_outcome =
  NotStarted | ProcessExit | Crashed py_error | Ended "CampType option" | Unfinished

definition start ::
    "nat \<Rightarrow> (RoleType list \<Rightarrow> RoleType list) \<Rightarrow> bool \<Rightarrow> RoundEnv list \<Rightarrow> console \<Rightarrow> Engine
       \<Rightarrow> game_outcome" where
  "start r shuffle client_ok envs cs e0 =
     (case initialize_game r shuffle client_ok e0 of
        InitFailed \<Rightarrow> NotStarted
      | InitSystemExit \<Rightarrow> ProcessExit
      | InitOk e \<Rightarrow>
          (case run_game_loop envs cs e of
             None \<Rightarrow> Unfinished
           | Some (Inl (err, e')) \<Rightarrow> Crashed err
           | Some (Inr e') \<Rightarrow> Ended (winner (game_state e'))))"

section \<open>Consistency of the engine's bookkeeping\<close>

text \<open>
  The players have distinct ids, and the two id lists of the game state hold, without
  repetition, exactly the ids of the players whose \<open>alive\<close> flag is set and of those whose
  flag is cleared.
\<close>

definition consistent :: "Engine \<Rightarrow> bool" where
  "consistent e =
     (distinct (map pid (players e)) \<and>
      distinct (alive_players (game_state e)) \<and>
      distinct (dead_players (game_state e)) \<and>
      set (alive_players (game_state e)) = set (map pid (filter alive (players e))) \<and>
      set (dead_players (game_state e)) = set (map pid (filter (\<lambda>p. \<not> alive p) (players e))))"

text \<open>
  The engines that a game can pass through: the engine a successful
  \<^verbatim>\<open>initialize_game\<close> leaves, and from there every engine left behind by a night phase, a
  night resolution, a day phase, a vote phase, the tally and elimination of a vote, a
  hunter's shot, the advance of the round counter or the recording of a winner, for any
  answers of the outside world, whether the method returned or raised.
\<close>

inductive reachable :: "Engine \<Rightarrow> bool" where
  reach_init: "initialize_game r shuffle client_ok e0 = InitOk e \<Longrightarrow> reachable e"
| reach_night: "reachable e \<Longrightarrow> reachable (final (process_night_phase nenv e))"
| reach_resolve: "reachable e \<Longrightarrow> reachable (final (resolve_night_actions na e))"
| reach_day: "reachable e \<Longrightarrow> reachable (final_c (process_day_phase ai cs e))"
| reach_vote: "reachable e \<Longrightarrow> reachable (final_c (process_vote_phase venv cs e))"
| reach_tally: "reachable e \<Longrightarrow> reachable (final_c (resolve_votes venv cs vs e))"
| reach_shot: "reachable e \<Longrightarrow> reachable (final_c (process_hunter_shoot ai_reply r cs h e))"
| reach_round: "reachable e \<Longrightarrow> reachable (next_round e)"
| reach_winner: "reachable e \<Longrightarrow> reachable (declare_winner w e)"

text \<open>The engine after the four kill statements have all run for player \<open>t\<close>.\<close>

definition killed :: "int \<Rightarrow> Engine \<Rightarrow> Engine" where
  "killed t e =
     e\<lparr>players := mark_dead t (players e),
       game_state := (game_state e)\<lparr>alive_players := remove1 t (alive_players (game_state e)),
                                     dead_players := dead_players (game_state e) @ [t]\<rparr>\<rparr>"

text \<open>The engine after a night death of player \<open>t\<close>: killed, with one kill record appended.\<close>

definition night_killed :: "int \<Rightarrow> Engine \<Rightarrow> Engine" where
  "night_killed t e =
     (killed t e)\<lparr>game_state :=
        (game_state (killed t e))\<lparr>history :=
           history (game_state e) @ [night_kill_record t (current_round (game_state e))]\<rparr>\<rparr>"

text \<open>Whether a player id is dead in every part of the bookkeeping.\<close>

definition is_dead :: "int \<Rightarrow> Engine \<Rightarrow> bool" where
  "is_dead t e =
     (t \<notin> set (alive_players (game_state e)) \<and> t \<in> set (dead_players (game_state e)) \<and>
      map alive (filter (\<lambda>p. pid p = t) (players e)) = [False])"

definition is_alive :: "int \<Rightarrow> Engine \<Rightarrow> bool" where
  "is_alive t e =
     (t \<in> set (alive_players (game_state e)) \<and> t \<notin> set (dead_players (game_state e)) \<and>
      map alive (filter (\<lambda>p. pid p = t) (players e)) = [True])"

section \<open>A nine-player table for examples\<close>

text \<open>
  Nine players with ids 0 to 8, all alive and all AI, with the roles of one possible
  shuffle: seer, werewolf, werewolf, villager, witch, villager, hunter, werewolf, villager.
\<close>

definition example_roles :: "RoleType list" where
  "example_roles =
     [SEER, WEREWOLF, WEREWOLF, VILLAGER, WITCH, VILLAGER, HUNTER, WEREWOLF, VILLAGER]"

definition example_players :: "Player list" where
  "example_players =
     map (\<lambda>i. (Player_new (int i) (player_name i) True)\<lparr>role := Some (example_roles ! i)\<rparr>)
       [0..<9]"

definition example_engine :: Engine where
  "example_engine =
     \<lparr>enable_ai_mode = True, spectator_mode = True, players = example_players,
      game_state = GameState_new\<lparr>alive_players := map pid example_players\<rparr>,
      ai_players = map pid example_players, num_players = 9, human_player_id = None\<rparr>"

text \<open>
  Votes and outside answers for the examples. In the first vote player 3 (a villager) has
  the most votes. In the second the tallies are 3-3-3 for players 2, 4 and 6. In the third
  player 6 (the hunter) has every vote, and the hunter's AI player answers with player 7.
\<close>

definition example_vote_env :: VoteEnv where
  "example_vote_env =
     \<lparr>ai_vote = (\<lambda>v. Raises), rnd_vote = (\<lambda>v. 0), ai_hunter = Returns (Some 7),
      rnd_hunter = 0\<rparr>"



definition votes_hunter :: votes where
  "votes_hunter = [(0, Some 6), (1, Some 6), (2, Some 6), (6, Some 1)]"

text \<open>
  A round in which every AI player answers except the witch's, whose coroutine raises; and
  eight freshly created players.
\<close>

definition witch_fails :: RoundEnv where
  "witch_fails =
     \<lparr>night_env = \<lparr>ai_werewolf = Returns (Some 3), rnd_werewolf = 0,
                    ai_seer = Returns (Some 1), rnd_seer = 0, ai_witch = Raises\<rparr>,
      ai_speech = (\<lambda>v. Returns ()),
      vote_env = example_vote_env\<rparr>"

definition eight_players :: "Player list" where
  "eight_players = map (\<lambda>i. Player_new (int i) (player_name i) True) [0..<8]"



definition poison_zero_night :: NightEnv where
  "poison_zero_night =
     \<lparr>ai_werewolf = Returns (Some 5), rnd_werewolf = 0, ai_seer = Returns (Some 1),
      rnd_seer = 0, ai_witch = Returns \<lparr>save = False, poison = Some 0\<rparr>\<rparr>"

definition human_engine :: Engine where
  "human_engine =
     \<lparr>enable_ai_mode = True, spectator_mode = False,
      players = example_players[6 := (example_players ! 6)\<lparr>is_ai := False\<rparr>],
      game_state = GameState_new\<lparr>alive_players := map pid example_players\<rparr>,
      ai_players = [0, 1, 2, 3, 4, 5, 7, 8], num_players = 9, human_player_id = Some 6\<rparr>"

section \<open>The specification's rules, in its words\<close>

text \<open>
  The rule of the specification, in its words: a function of the two counts alone. No
  living werewolf: the villager camp wins. Otherwise, living good players no more than
  living werewolves: the werewolf camp wins. Otherwise nobody has won yet.
\<close>

definition WinConditionEvaluator :: "nat \<Rightarrow> nat \<Rightarrow> CampType option" where
  "WinConditionEvaluator werewolves good =
     (if werewolves = 0 then Some CAMP_VILLAGER
      else if good \<le> werewolves then Some CAMP_WEREWOLF
      else None)"


text \<open>
  The vote rule of the specification: the tally of a target is the number of votes cast
  for it, and the candidates are the targets whose tally no other target's tally exceeds.
\<close>

definition tally :: "votes \<Rightarrow> int option \<Rightarrow> nat" where
  "tally vs t = count_list (map snd vs) t"

definition candidates :: "votes \<Rightarrow> int option set" where
  "candidates vs =
     {t \<in> set (map snd vs). list_all (\<lambda>u. tally vs u \<le> tally vs t) (map snd vs)}"

text \<open>
  The legal candidate sets of the two night requests that have a fallback: the living
  players that are not werewolves, and the living players other than the seer.
\<close>

definition kill_candidates :: "Engine \<Rightarrow> Player list" where
  "kill_candidates e = filter (\<lambda>p. alive p \<and> role p \<noteq> Some WEREWOLF) (players e)"

definition check_candidates :: "Player \<Rightarrow> Engine \<Rightarrow> Player list" where
  "check_candidates seer e = filter (\<lambda>p. alive p \<and> pid p \<noteq> pid seer) (players e)"

text \<open>The players, each given the role at its position in a list of roles.\<close>

definition with_roles :: "Player list \<Rightarrow> RoleType list \<Rightarrow> Player list" where
  "with_roles ps rs = map (\<lambda>(p, r). p\<lparr>role := Some r\<rparr>) (zip ps rs)"

text \<open>
  A console line that the human player's prompt does not accept: one that is no integer,
  or an integer that is not among the valid targets.
\<close>

definition rejected :: "int list \<Rightarrow> int option \<Rightarrow> bool" where
  "rejected valid line = (case line of None \<Rightarrow> True | Some t \<Rightarrow> t \<notin> set valid)"


section \<open>Auxiliary notions for the proofs\<close>

text \<open>The engine after the seer has checked \<open>t\<close>: the verdict is stored when \<open>t\<close> is a player.\<close>

definition checked :: "int \<Rightarrow> Engine \<Rightarrow> Engine" where
  "checked t e =
     (case find (\<lambda>p. pid p = t) (players e) of
        None \<Rightarrow> e
      | Some target \<Rightarrow>
          e\<lparr>game_state :=
              (game_state e)\<lparr>seer_results :=
                 AList.update t (if role target = Some WEREWOLF then IS_WEREWOLF else IS_GOOD)
                   (seer_results (game_state e))\<rparr>\<rparr>)"

text \<open>The count that \<^verbatim>\<open>vote_counts.get(t, 0)\<close> reads, and one step of the counting loop.\<close>

definition cnt :: "(int option \<times> int) list \<Rightarrow> int option \<Rightarrow> int" where
  "cnt vc t = (case map_of vc t of None \<Rightarrow> 0 | Some c \<Rightarrow> c)"

definition count_step :: "(int option \<times> int) list \<Rightarrow> int option \<Rightarrow> (int option \<times> int) list" where
  "count_step vc t = AList.update t (cnt vc t + 1) vc"

section \<open>Properties\<close>

subsection \<open>The win evaluator\<close>

lemma alive_split_count:
  "length (filter alive ps) = aliveWerewolves ps + aliveGood ps"
  unfolding aliveWerewolves_def aliveGood_def
  by (induction ps) auto

lemma alive_werewolf_count_eq:
  "length (filter (\<lambda>p. role p = Some WEREWOLF) (filter alive ps)) = aliveWerewolves ps"
  unfolding aliveWerewolves_def
  by (induction ps) auto

lemma check_winner_by_counts:
  "check_winner gs ps =
     (case winner gs of
        Some w \<Rightarrow> Some w
      | None \<Rightarrow> if aliveWerewolves ps = 0 then Some CAMP_VILLAGER
                else if aliveGood ps \<le> aliveWerewolves ps then Some CAMP_WEREWOLF
                else None)"
proof (cases "winner gs")
  case (Some w)
  then show ?thesis by (simp add: check_winner_def)
next
  case None
  have w: "int (length (filter (\<lambda>p. role p = Some WEREWOLF) (filter alive ps)))
             = int (aliveWerewolves ps)"
    using alive_werewolf_count_eq [of ps] by (simp only:)
  have g: "int (length (filter alive ps)) - int (aliveWerewolves ps) = int (aliveGood ps)"
    using alive_split_count [of ps] by simp
  show ?thesis
    unfolding check_winner_def Let_def w g using None by simp
qed

text \<open>
  Claim C8. The win evaluator depends on the players only through the number of living
  werewolves and the number of living non-werewolves: with no stored winner it returns the
  villager camp when no werewolf lives, the werewolf camp when at least one werewolf lives
  and the living non-werewolves are no more than the living werewolves, and no winner
  otherwise. With a stored winner it returns that winner, whatever the players are. The
  evaluator only reads the state (it returns a value and no state), so an evaluation
  changes nothing.
\<close>

theorem check_winner_spec:
  "check_winner gs ps =
     (case winner gs of
        Some w \<Rightarrow> Some w
      | None \<Rightarrow> WinConditionEvaluator (aliveWerewolves ps) (aliveGood ps))"
  by (simp add: check_winner_by_counts WinConditionEvaluator_def split: option.split)

subsection \<open>Killing a player and resolving the night\<close>

lemma map_pid_mark_dead [simp]: "map pid (mark_dead t ps) = map pid ps"
  by (induction ps) auto

lemma length_mark_dead [simp]: "length (mark_dead t ps) = length ps"
  by (induction ps) auto

lemma mark_dead_absent: "t \<notin> set (map pid ps) \<Longrightarrow> mark_dead t ps = ps"
  by (induction ps) auto

lemma filter_alive_mark_dead:
  "distinct (map pid ps) \<Longrightarrow>
   filter alive (mark_dead t ps) = filter (\<lambda>p. alive p \<and> pid p \<noteq> t) ps"
proof (induction ps)
  case Nil then show ?case by simp
next
  case (Cons p ps)
  show ?case
  proof (cases "pid p = t")
    case True
    with Cons.prems have "t \<notin> set (map pid ps)" by auto
    then have "filter alive ps = filter (\<lambda>p. alive p \<and> pid p \<noteq> t) ps"
      by (intro filter_cong) auto
    with True show ?thesis by simp
  next
    case False
    with Cons show ?thesis by simp
  qed
qed

lemma find_pid_Some: "t \<in> set (map pid ps) \<Longrightarrow> \<exists>p. find (\<lambda>p. pid p = t) ps = Some p"
  by (induction ps) auto

lemma find_pid_None: "t \<notin> set (map pid ps) \<Longrightarrow> find (\<lambda>p. pid p = t) ps = None"
  by (induction ps) auto

lemma mark_dead_already:
  "distinct (map pid ps) \<Longrightarrow> t \<notin> set (map pid (filter alive ps)) \<Longrightarrow> mark_dead t ps = ps"
proof (induction ps)
  case Nil then show ?case by simp
next
  case (Cons p ps)
  then show ?case by (cases "pid p = t") (auto split: if_splits)
qed

lemma dead_ids_mark_dead:
  "distinct (map pid ps) \<Longrightarrow> t \<in> set (map pid (filter alive ps)) \<Longrightarrow>
   set (map pid (filter (\<lambda>p. \<not> alive p) (mark_dead t ps)))
     = insert t (set (map pid (filter (\<lambda>p. \<not> alive p) ps)))"
proof (induction ps)
  case Nil then show ?case by simp
next
  case (Cons p ps)
  show ?case
  proof (cases "pid p = t")
    case True
    then show ?thesis using Cons.prems by auto
  next
    case False
    then show ?thesis using Cons by (auto split: if_splits)
  qed
qed


lemma kill_player_alive:
  assumes "consistent e" and "t \<in> set (alive_players (game_state e))"
  shows "kill_player t e = Inr (killed t e)"
proof -
  from assms have "t \<in> set (map pid (players e))"
    unfolding consistent_def by auto
  then obtain p where "find (\<lambda>p. pid p = t) (players e) = Some p"
    using find_pid_Some by blast
  then show ?thesis using assms(2) by (simp add: kill_player_def killed_def Let_def)
qed

lemma kill_player_not_alive:
  assumes "consistent e" and "t \<notin> set (alive_players (game_state e))"
  shows "\<exists>err. kill_player t e = Inl (err, e)"
proof (cases "find (\<lambda>p. pid p = t) (players e)")
  case None
  then show ?thesis by (simp add: kill_player_def)
next
  case (Some p)
  from assms have "mark_dead t (players e) = players e"
    unfolding consistent_def by (intro mark_dead_already) auto
  then show ?thesis using Some assms(2) by (simp add: kill_player_def Let_def)
qed

lemma consistent_killed:
  assumes "consistent e" and "t \<in> set (alive_players (game_state e))"
  shows "consistent (killed t e)"
proof -
  let ?ps = "players e" and ?gs = "game_state e"
  from assms have d: "distinct (map pid ?ps)" and da: "distinct (alive_players ?gs)"
    and dd: "distinct (dead_players ?gs)"
    and a: "set (alive_players ?gs) = set (map pid (filter alive ?ps))"
    and dset: "set (dead_players ?gs) = set (map pid (filter (\<lambda>p. \<not> alive p) ?ps))"
    unfolding consistent_def by auto
  have t_alive: "t \<in> set (map pid (filter alive ?ps))" using assms(2) a by simp
  have inj: "inj_on pid (set ?ps)" using d by (simp add: distinct_map)
  have t_not_dead: "t \<notin> set (dead_players ?gs)"
  proof
    assume "t \<in> set (dead_players ?gs)"
    then obtain q where q: "q \<in> set ?ps" "\<not> alive q" "pid q = t" using dset by auto
    from t_alive obtain p where p: "p \<in> set ?ps" "alive p" "pid p = t" by auto
    from inj p q have "p = q" by (auto dest: inj_onD)
    with p q show False by simp
  qed
  have a': "set (remove1 t (alive_players ?gs)) = set (map pid (filter alive (mark_dead t ?ps)))"
  proof -
    have "set (map pid (filter (\<lambda>p. alive p \<and> pid p \<noteq> t) ?ps))
            = set (map pid (filter alive ?ps)) - {t}" by auto
    then show ?thesis using da a d by (simp add: filter_alive_mark_dead)
  qed
  have d': "set (dead_players ?gs @ [t])
              = set (map pid (filter (\<lambda>p. \<not> alive p) (mark_dead t ?ps)))"
    using dead_ids_mark_dead [OF d t_alive] dset by simp
  show ?thesis
    unfolding consistent_def killed_def
    using d da dd t_not_dead a' d' by simp
qed


lemma filter_pid_mark_dead:
  "distinct (map pid ps) \<Longrightarrow> t \<in> set (map pid ps) \<Longrightarrow>
   map alive (filter (\<lambda>p. pid p = t) (mark_dead t ps)) = [False]"
proof (induction ps)
  case Nil then show ?case by simp
next
  case (Cons p ps)
  show ?case
  proof (cases "pid p = t")
    case True
    with Cons.prems have "t \<notin> set (map pid ps)" by auto
    then have "filter (\<lambda>p. pid p = t) ps = []" by (auto simp: filter_empty_conv)
    with True show ?thesis by simp
  next
    case False
    with Cons show ?thesis by auto
  qed
qed


lemma is_dead_killed:
  assumes "consistent e" and "t \<in> set (alive_players (game_state e))"
  shows "is_dead t (killed t e)"
proof -
  from assms have d: "distinct (map pid (players e))" and da: "distinct (alive_players (game_state e))"
    and tin: "t \<in> set (map pid (players e))"
    unfolding consistent_def by auto
  show ?thesis
    unfolding is_dead_def killed_def
    using filter_pid_mark_dead [OF d tin] da by simp
qed

lemma night_death_alive:
  assumes "consistent e" and "t \<in> set (alive_players (game_state e))"
  shows "night_death t e = Inr (night_killed t e)"
  using kill_player_alive [OF assms]
  by (simp add: night_death_def night_killed_def killed_def Let_def)

lemma night_death_not_alive:
  assumes "consistent e" and "t \<notin> set (alive_players (game_state e))"
  shows "\<exists>err. night_death t e = Inl (err, e)"
  using kill_player_not_alive [OF assms]
  by (auto simp add: night_death_def)

lemma consistent_night_killed:
  assumes "consistent e" and "t \<in> set (alive_players (game_state e))"
  shows "consistent (night_killed t e)"
  using consistent_killed [OF assms]
  by (simp add: consistent_def night_killed_def)

lemma is_dead_night_killed:
  assumes "consistent e" and "t \<in> set (alive_players (game_state e))"
  shows "is_dead t (night_killed t e)"
  using is_dead_killed [OF assms]
  by (simp add: is_dead_def night_killed_def)

lemma night_deaths_cases:
  "night_deaths na = [] \<or> (\<exists>a. night_deaths na = [a]) \<or> (\<exists>a b. night_deaths na = [a, b])"
  by (auto simp: night_deaths_def split: option.splits)



lemma kill_player_dead:
  assumes "consistent e" and "t \<notin> set (alive_players (game_state e))"
    and "t \<in> set (map pid (players e))"
  shows "kill_player t e = Inl (ValueError, e)"
proof -
  obtain p where "find (\<lambda>p. pid p = t) (players e) = Some p"
    using find_pid_Some [OF assms(3)] by blast
  moreover from assms have "mark_dead t (players e) = players e"
    unfolding consistent_def by (intro mark_dead_already) auto
  ultimately show ?thesis using assms(2) by (simp add: kill_player_def Let_def)
qed

lemma kill_player_unknown:
  assumes "t \<notin> set (map pid (players e))"
  shows "kill_player t e = Inl (StopIteration, e)"
  using find_pid_None [OF assms] by (simp add: kill_player_def)

lemma night_death_dead:
  assumes "consistent e" and "t \<notin> set (alive_players (game_state e))"
    and "t \<in> set (map pid (players e))"
  shows "night_death t e = Inl (ValueError, e)"
  using kill_player_dead [OF assms] by (simp add: night_death_def)

lemma consistent_final_night_death:
  assumes "consistent e"
  shows "consistent (final (night_death t e))"
proof (cases "t \<in> set (alive_players (game_state e))")
  case True
  then show ?thesis
    using night_death_alive [OF assms True] consistent_night_killed [OF assms True]
    by (simp add: final_def)
next
  case False
  then show ?thesis
    using night_death_not_alive [OF assms False] assms by (auto simp: final_def)
qed

lemma consistent_final_for_deaths:
  "consistent e \<Longrightarrow> consistent (final (for_deaths ts e))"
proof (induction ts arbitrary: e)
  case Nil
  then show ?case by (simp add: final_def)
next
  case (Cons t ts)
  show ?case
  proof (cases "night_death t e")
    case (Inl x)
    then show ?thesis
      using consistent_final_night_death [OF Cons.prems, of t]
      by (cases x) (simp add: final_def)
  next
    case (Inr e1)
    then have "consistent e1"
      using consistent_final_night_death [OF Cons.prems, of t] by (simp add: final_def)
    then show ?thesis using Inr Cons.IH by simp
  qed
qed







lemma map_pid_create_players:
  "create_players n sp r = Inr (ps, h) \<Longrightarrow> map pid ps = map int [0..<nat n]"
  by (auto simp: create_players_def Player_new_def Let_def comp_def split: if_splits)

lemma consistent_example: "consistent example_engine"
  by (simp add: consistent_def example_engine_def example_players_def GameState_new_def
      Player_new_def upt_rec [of _ 9] )


text \<open>
  Claim C6. In a night in which the witch's save names the werewolves' target (both set)
  and there is no poison, the resolution kills no one: it returns without an error and
  leaves the whole engine as it was, so the target stays alive and no kill record is
  appended.
\<close>

theorem matching_save_cancels_kill:
  assumes "werewolf_kill na = Some k" and "witch_save na = Some k" and "witch_poison na = None"
  shows "resolve_night_actions na e = Inr e"
  using assms by (simp add: resolve_night_actions_def night_deaths_def)

theorem matching_save_cancels_kill_witness:
  "werewolf_kill (NightActions_new\<lparr>werewolf_kill := Some 3, witch_save := Some 3\<rparr>) = Some 3 \<and>
   witch_save (NightActions_new\<lparr>werewolf_kill := Some 3, witch_save := Some 3\<rparr>) = Some 3 \<and>
   witch_poison (NightActions_new\<lparr>werewolf_kill := Some 3, witch_save := Some 3\<rparr>) = None \<and>
   resolve_night_actions (NightActions_new\<lparr>werewolf_kill := Some 3, witch_save := Some 3\<rparr>)
     example_engine = Inr example_engine"
  using matching_save_cancels_kill
    [of "NightActions_new\<lparr>werewolf_kill := Some 3, witch_save := Some 3\<rparr>" 3 example_engine]
  by (simp add: NightActions_new_def)

lemma alive_ids_example: "alive_players (game_state example_engine) = [0, 1, 2, 3, 4, 5, 6, 7, 8]"
  by (simp add: example_engine_def example_players_def GameState_new_def
      Player_new_def upt_rec [of _ 9])

lemma pids_example: "map pid (players example_engine) = [0, 1, 2, 3, 4, 5, 6, 7, 8]"
  by (simp add: example_engine_def example_players_def GameState_new_def
      Player_new_def upt_rec [of _ 9])

lemma is_alive_example: "t \<in> {0, 1, 2, 3, 4, 5, 6, 7, 8} \<Longrightarrow> is_alive t example_engine"
  by (auto simp add: is_alive_def example_engine_def example_players_def GameState_new_def
      Player_new_def upt_rec [of _ 9])



text \<open>
  Claim C2, at a failing input. On the nine-player table, with every player alive, a night
  in which the werewolves' kill and the witch's poison both name player 5 does not
  complete: the first death is applied (flag, both lists, one kill record), and the
  second pass over the same id raises \<^verbatim>\<open>ValueError\<close> at \<^verbatim>\<open>alive_players.remove\<close>.
\<close>

theorem same_target_kill_and_poison_raises:
  "resolve_night_actions
     (NightActions_new\<lparr>werewolf_kill := Some 5, witch_poison := Some 5\<rparr>) example_engine
     = Inl (ValueError, night_killed 5 example_engine)"
proof -
  let ?na = "NightActions_new\<lparr>werewolf_kill := Some 5, witch_poison := Some 5\<rparr>"
  let ?e1 = "night_killed 5 example_engine"
  have nd: "night_deaths ?na = [5, 5]"
    by (simp add: night_deaths_def NightActions_new_def truthy_def)
  have a: "5 \<in> set (alive_players (game_state example_engine))"
    by (simp add: alive_ids_example)
  have c1: "consistent ?e1" by (rule consistent_night_killed [OF consistent_example a])
  have "is_dead 5 ?e1" by (rule is_dead_night_killed [OF consistent_example a])
  then have na5: "5 \<notin> set (alive_players (game_state ?e1))" by (simp add: is_dead_def)
  have "5 \<in> set (map pid (players ?e1))"
    by (simp add: night_killed_def killed_def pids_example)
  then have "night_death 5 ?e1 = Inl (ValueError, ?e1)"
    using night_death_dead [OF c1 na5] by simp
  then show ?thesis
    using nd night_death_alive [OF consistent_example a]
    by (simp add: resolve_night_actions_def)
qed

subsection \<open>The vote tally\<close>

lemma count_votes_alt: "count_votes vs = foldl count_step [] (map snd vs)"
proof -
  have "(\<lambda>vc t. AList.update t ((case map_of vc t of None \<Rightarrow> 0 | Some c \<Rightarrow> c) + 1) vc)
          = count_step"
    by (intro ext) (simp add: count_step_def cnt_def)
  then show ?thesis by (simp only: count_votes_def)
qed

lemma distinct_count_fold:
  "distinct (map fst vc) \<Longrightarrow> distinct (map fst (foldl count_step vc ts))"
  by (induction ts arbitrary: vc) (simp_all add: count_step_def distinct_update)

lemma keys_count_fold:
  "fst ` set (foldl count_step vc ts) = fst ` set vc \<union> set ts"
  by (induction ts arbitrary: vc) (auto simp: count_step_def dom_update)

lemma cnt_count_step: "cnt (count_step vc u) t = cnt vc t + (if u = t then 1 else 0)"
  by (simp add: cnt_def count_step_def update_conv')

lemma cnt_count_fold:
  "cnt (foldl count_step vc ts) t = cnt vc t + int (count_list ts t)"
  by (induction ts arbitrary: vc) (simp_all add: cnt_count_step)

lemma count_votes_keys: "fst ` set (count_votes vs) = set (map snd vs)"
  by (simp add: count_votes_alt keys_count_fold)

lemma count_votes_distinct: "distinct (map fst (count_votes vs))"
  by (simp add: count_votes_alt distinct_count_fold)

lemma count_votes_value:
  assumes "(t, n) \<in> set (count_votes vs)"
  shows "n = int (tally vs t)"
proof -
  have "map_of (count_votes vs) t = Some n"
    using assms count_votes_distinct by (simp add: map_of_eq_Some_iff)
  then have "cnt (count_votes vs) t = n" by (simp add: cnt_def)
  moreover have "cnt (count_votes vs) t = int (count_list (map snd vs) t)"
    unfolding count_votes_alt cnt_count_fold by (simp add: cnt_def)
  ultimately show ?thesis by (simp add: tally_def)
qed

lemma count_votes_member:
  assumes "t \<in> set (map snd vs)"
  shows "(t, int (tally vs t)) \<in> set (count_votes vs)"
proof -
  from assms have "t \<in> fst ` set (count_votes vs)" by (simp add: count_votes_keys)
  then obtain n where n: "(t, n) \<in> set (count_votes vs)" by auto
  with count_votes_value show ?thesis by blast
qed

lemma foldl_max_mem: "foldl max (c::int) rest \<in> set (c # rest)"
  by (induction rest arbitrary: c) (auto simp: max_def)

lemma foldl_max_ge_init: "(c::int) \<le> foldl max c rest"
proof (induction rest arbitrary: c)
  case Nil then show ?case by simp
next
  case (Cons x xs)
  have "c \<le> max c x" by simp
  also have "\<dots> \<le> foldl max (max c x) xs" by (rule Cons.IH)
  finally show ?case by simp
qed

lemma foldl_max_ge: "x \<in> set (c # rest) \<Longrightarrow> (x::int) \<le> foldl max c rest"
proof (induction rest arbitrary: c)
  case Nil then show ?case by simp
next
  case (Cons y ys)
  show ?case
  proof (cases "x \<in> set ys")
    case True
    then show ?thesis using Cons.IH [of "max c y"] by simp
  next
    case False
    with Cons.prems have "x = c \<or> x = y" by auto
    then have "x \<le> max c y" by auto
    also have "\<dots> \<le> foldl max (max c y) ys" by (rule foldl_max_ge_init)
    finally show ?thesis by simp
  qed
qed

text \<open>The list of top targets that the code computes, for a non-empty count table.\<close>

lemma top_targets:
  assumes vc: "map snd (count_votes vs) = c # rest"
  shows "set (map fst (filter (\<lambda>(t, n). n = foldl max c rest) (count_votes vs))) = candidates vs"
    and "distinct (map fst (filter (\<lambda>(t, n). n = foldl max c rest) (count_votes vs)))"
proof -
  let ?m = "foldl max c rest" and ?vc = "count_votes vs"
  have "?m \<in> set (map snd ?vc)" using foldl_max_mem [of c rest] vc by simp
  then obtain w where w: "(w, ?m) \<in> set ?vc" by auto
  have mw: "?m = int (tally vs w)" using count_votes_value [OF w] .
  have ge: "int (tally vs u) \<le> ?m" if "u \<in> set (map snd vs)" for u
  proof -
    have "(u, int (tally vs u)) \<in> set ?vc" using that by (rule count_votes_member)
    then have "int (tally vs u) \<in> set (map snd ?vc)" by force
    then show ?thesis using foldl_max_ge [of _ c rest] vc by simp
  qed
  have win: "w \<in> set (map snd vs)" using w count_votes_keys [of vs] by force
  show "set (map fst (filter (\<lambda>(t, n). n = ?m) ?vc)) = candidates vs"
  proof (intro equalityI subsetI)
    fix t assume "t \<in> set (map fst (filter (\<lambda>(t, n). n = ?m) ?vc))"
    then have tm: "(t, ?m) \<in> set ?vc" by auto
    then have tin: "t \<in> set (map snd vs)" using count_votes_keys [of vs] by force
    have "?m = int (tally vs t)" using count_votes_value [OF tm] .
    then have "tally vs u \<le> tally vs t" if "u \<in> set (map snd vs)" for u
      using ge [OF that] by simp
    then show "t \<in> candidates vs" using tin by (auto simp: candidates_def list_all_iff)
  next
    fix t assume "t \<in> candidates vs"
    then have tin: "t \<in> set (map snd vs)"
      and top: "\<And>u. u \<in> set (map snd vs) \<Longrightarrow> tally vs u \<le> tally vs t"
      by (auto simp: candidates_def list_all_iff)
    have "int (tally vs t) \<le> ?m" using ge [OF tin] .
    moreover have "?m \<le> int (tally vs t)" using top [OF win] mw by simp
    ultimately have "(t, ?m) \<in> set ?vc" using count_votes_member [OF tin] by simp
    then show "t \<in> set (map fst (filter (\<lambda>(t, n). n = ?m) ?vc))" by force
  qed
  show "distinct (map fst (filter (\<lambda>(t, n). n = ?m) ?vc))"
    using count_votes_distinct [of vs] by (rule distinct_map_filter)
qed

lemma distinct_singleton_set: "distinct xs \<Longrightarrow> set xs = {x} \<Longrightarrow> xs = [x]"
  by (cases xs; cases "tl xs") auto

lemma count_votes_empty: "count_votes vs = [] \<longleftrightarrow> vs = []"
  using count_votes_keys [of vs] by (cases vs) auto

lemma resolve_votes_unique:
  assumes "candidates vs = {x}"
  shows "resolve_votes env cs vs e = eliminate env cs x e"
proof -
  from assms have "vs \<noteq> []" by (auto simp: candidates_def)
  then have "map snd (count_votes vs) \<noteq> []" by (simp add: count_votes_empty)
  then obtain c rest where vc: "map snd (count_votes vs) = c # rest"
    by (cases "map snd (count_votes vs)") auto
  have "map fst (filter (\<lambda>(t, n). n = foldl max c rest) (count_votes vs)) = [x]"
    using top_targets [OF vc] assms by (intro distinct_singleton_set) simp_all
  then show ?thesis using vc by (simp add: resolve_votes_def Let_def)
qed


subsection \<open>Elimination by vote and the hunter's shot\<close>

lemma consistent_record_vote: "consistent (record_vote t e) = consistent e"
  by (simp add: consistent_def record_vote_def set_voted_def Let_def)





lemma eliminate_alive:
  assumes "consistent e" and "t \<in> set (alive_players (game_state e))"
    and "find (\<lambda>p. pid p = t) (players e) = Some p" and "role p = Some rl"
  shows "eliminate env cs (Some t) e =
           (if rl = HUNTER
            then process_hunter_shoot (ai_hunter env) (rnd_hunter env) cs p
                   (record_vote t (killed t e))
            else Inr (record_vote t (killed t e), cs))"
  using kill_player_alive [OF assms(1,2)] assms(3,4)
  by (simp add: eliminate_def)

lemma eliminate_roleless:
  assumes "consistent e" and "t \<in> set (alive_players (game_state e))"
    and "find (\<lambda>p. pid p = t) (players e) = Some p" and "role p = None"
  shows "eliminate env cs (Some t) e = Inl (AttributeError, set_voted t (killed t e))"
  using kill_player_alive [OF assms(1,2)] assms(3,4)
  by (simp add: eliminate_def)

lemma eliminate_not_alive:
  assumes "consistent e" and "t \<notin> set (alive_players (game_state e))"
  shows "\<exists>err. eliminate env cs (Some t) e = Inl (err, e)"
  using kill_player_not_alive [OF assms]
  by (auto simp: eliminate_def split: option.splits)

lemma human_vote_loop_valid:
  "human_vote_loop valid cs = Some (s, cs') \<Longrightarrow> s \<in> set valid"
  by (induction cs) (auto split: option.splits if_splits)

lemma human_hunter_loop_first_valid:
  assumes "consistent e" and "set valid \<subseteq> set (alive_players (game_state e))"
    and "human_vote_loop valid cs = Some (s, cs')"
  shows "human_hunter_loop valid cs e = Inr (killed s e, cs')"
  using assms(3)
proof (induction cs)
  case Nil
  then show ?case by simp
next
  case (Cons line cs)
  show ?case
  proof (cases line)
    case None
    with Cons show ?thesis by simp
  next
    case (Some u)
    show ?thesis
    proof (cases "u \<in> set valid")
      case True
      with Cons.prems Some have us: "u = s" "cs = cs'" by simp_all
      have "u \<in> set (alive_players (game_state e))" using True assms(2) by auto
      then show ?thesis
        using kill_player_alive [OF assms(1)] Some True us by simp
    next
      case False
      with Cons Some show ?thesis by simp
    qed
  qed
qed

lemma alive_ids_of_flags:
  assumes "consistent e"
  shows "set (map pid (filter alive (players e))) = set (alive_players (game_state e))"
  using assms by (simp add: consistent_def)



lemma consistent_vote_killed:
  assumes "consistent e" and "t \<in> set (alive_players (game_state e))"
  shows "consistent (record_vote t (killed t e))"
  using consistent_killed [OF assms] by (simp add: consistent_record_vote)

lemma history_record_vote_killed:
  "history (game_state (record_vote t (killed t e)))
     = history (game_state e) @ [vote_record t (current_round (game_state e))]"
  by (simp add: record_vote_def set_voted_def killed_def Let_def)


lemma record_vote_fields:
  "voted_player (game_state (record_vote t e)) = Some t"
  "history (game_state (record_vote t e))
     = history (game_state e) @
         [\<lparr>action_type = VOTE, player_id = 0, target_id = Some t, ar_phase = ''vote'',
           ar_round = current_round (game_state e)\<rparr>]"
  "players (record_vote t e) = players e"
  "alive_players (game_state (record_vote t e)) = alive_players (game_state e)"
  "dead_players (game_state (record_vote t e)) = dead_players (game_state e)"
  "spectator_mode (record_vote t e) = spectator_mode e"
  "human_player_id (record_vote t e) = human_player_id e"
  "enable_ai_mode (record_vote t e) = enable_ai_mode e"
  "ai_players (record_vote t e) = ai_players e"
  by (simp_all add: record_vote_def set_voted_def vote_record_def Let_def)

lemma killed_fields:
  "players (killed t e) = mark_dead t (players e)"
  "alive_players (game_state (killed t e)) = remove1 t (alive_players (game_state e))"
  "dead_players (game_state (killed t e)) = dead_players (game_state e) @ [t]"
  "history (game_state (killed t e)) = history (game_state e)"
  "current_round (game_state (killed t e)) = current_round (game_state e)"
  "voted_player (game_state (killed t e)) = voted_player (game_state e)"
  "spectator_mode (killed t e) = spectator_mode e"
  "human_player_id (killed t e) = human_player_id e"
  "enable_ai_mode (killed t e) = enable_ai_mode e"
  "ai_players (killed t e) = ai_players e"
  by (simp_all add: killed_def)

text \<open>The two loops of the human player: lines are passed over until one is valid.\<close>

lemma human_vote_loop_skips:
  assumes "list_all (rejected valid) pre"
  shows "human_vote_loop valid (pre @ cs) = human_vote_loop valid cs"
  using assms by (induction pre) (auto simp: rejected_def split: option.splits)

lemma human_vote_loop_accepts:
  assumes "list_all (rejected valid) pre" and "t \<in> set valid"
  shows "human_vote_loop valid (pre @ Some t # post) = Some (t, post)"
  using assms by (simp add: human_vote_loop_skips)

lemma human_vote_loop_exhausted:
  assumes "list_all (rejected valid) cs"
  shows "human_vote_loop valid cs = None"
  using human_vote_loop_skips [OF assms, of "[]"] by simp

lemma human_hunter_loop_skips:
  assumes "list_all (rejected valid) pre"
  shows "human_hunter_loop valid (pre @ cs) e = human_hunter_loop valid cs e"
  using assms by (induction pre) (auto simp: rejected_def split: option.splits)

lemma human_hunter_loop_accepts:
  assumes "consistent e" and "set valid \<subseteq> set (alive_players (game_state e))"
    and "list_all (rejected valid) pre" and "t \<in> set valid"
  shows "human_hunter_loop valid (pre @ Some t # post) e = Inr (killed t e, post)"
proof -
  have "human_vote_loop valid (pre @ Some t # post) = Some (t, post)"
    using assms(3,4) by (rule human_vote_loop_accepts)
  then show ?thesis by (rule human_hunter_loop_first_valid [OF assms(1,2)])
qed

lemma human_hunter_loop_exhausted:
  assumes "list_all (rejected valid) cs"
  shows "human_hunter_loop valid cs e = Inl (EOFError, e)"
  using human_hunter_loop_skips [OF assms, of "[]" e] by simp

subsection \<open>The bookkeeping stays consistent\<close>

lemma consistent_final_kill_player:
  assumes "consistent e"
  shows "consistent (final (kill_player t e))"
proof (cases "t \<in> set (alive_players (game_state e))")
  case True
  then show ?thesis
    using kill_player_alive [OF assms True] consistent_killed [OF assms True]
    by (simp add: final_def)
next
  case False
  then show ?thesis
    using kill_player_not_alive [OF assms False] assms by (auto simp: final_def)
qed

lemma consistent_kill_player_Inr:
  "consistent e \<Longrightarrow> kill_player t e = Inr e1 \<Longrightarrow> consistent e1"
  using consistent_final_kill_player [of e t] by (simp add: final_def)

lemma consistent_kill_player_Inl:
  "consistent e \<Longrightarrow> kill_player t e = Inl (err, e1) \<Longrightarrow> consistent e1"
  using consistent_final_kill_player [of e t] by (simp add: final_def)

lemma consistent_human_hunter_loop:
  "consistent e \<Longrightarrow> consistent (final_c (human_hunter_loop valid cs e))"
proof (induction cs arbitrary: e)
  case Nil
  then show ?case by (simp add: final_c_def)
next
  case (Cons line cs)
  show ?case
  proof (cases line)
    case None
    then show ?thesis using Cons by simp
  next
    case (Some t)
    show ?thesis
    proof (cases "t \<in> set valid")
      case False
      then show ?thesis using Some Cons by simp
    next
      case True
      show ?thesis
      proof (cases "kill_player t e")
        case (Inr e1)
        then show ?thesis
          using Some True consistent_kill_player_Inr [OF Cons.prems Inr]
          by (simp add: final_c_def)
      next
        case (Inl x)
        obtain err e1 where x: "x = (err, e1)" by (cases x)
        have c1: "consistent e1"
          using consistent_kill_player_Inl [OF Cons.prems] Inl x by simp
        show ?thesis
          using Some True Inl x c1 Cons.IH [OF c1]
          by (simp add: final_c_def)
      qed
    qed
  qed
qed

lemma consistent_process_hunter_shoot:
  assumes "consistent e"
  shows "consistent (final_c (process_hunter_shoot ai_reply r cs h e))"
proof (cases "\<not> spectator_mode e \<and> Some (pid h) = human_player_id e")
  case True
  then show ?thesis
    using consistent_human_hunter_loop [OF assms] by (simp add: process_hunter_shoot_def)
next
  case False
  define sel where "sel =
        (if enable_ai_mode e \<and> pid h \<in> set (ai_players e)
         then (case ai_reply of
                 Raises \<Rightarrow> Inl ActorError
               | Returns tid \<Rightarrow> Inr tid)
         else (case random_choice r (filter alive (players e)) of
                 None \<Rightarrow> Inl IndexError
               | Some target \<Rightarrow> Inr (Some (pid target))))"
  from False have *: "process_hunter_shoot ai_reply r cs h e =
        (case sel of
           Inl err \<Rightarrow> Inl (err, e)
         | Inr None \<Rightarrow> Inl (StopIteration, e)
         | Inr (Some t) \<Rightarrow>
             (case kill_player t e of
                Inl x \<Rightarrow> Inl x
              | Inr e1 \<Rightarrow> Inr (e1, cs)))"
    unfolding sel_def by (auto simp: process_hunter_shoot_def)
  show ?thesis
  proof (cases sel)
    case (Inl err)
    then show ?thesis using * assms by (simp add: final_c_def)
  next
    case (Inr ot)
    show ?thesis
    proof (cases ot)
      case None
      then show ?thesis using * Inr assms by (simp add: final_c_def)
    next
      case (Some t)
      show ?thesis
      proof (cases "kill_player t e")
        case kl: (Inl y)
        obtain err e1 where y: "y = (err, e1)" by (cases y)
        then show ?thesis
          using * Inr Some kl consistent_kill_player_Inl [OF assms, of t err e1]
          by (simp add: final_c_def)
      next
        case kr: (Inr e1)
        then show ?thesis
          using * Inr Some consistent_kill_player_Inr [OF assms kr]
          by (simp add: final_c_def)
      qed
    qed
  qed
qed

lemma consistent_eliminate:
  assumes "consistent e"
  shows "consistent (final_c (eliminate env cs x e))"
proof (cases x)
  case None
  then show ?thesis using assms by (simp add: eliminate_def final_c_def)
next
  case (Some t)
  show ?thesis
  proof (cases "find (\<lambda>p. pid p = t) (players e)")
    case None
    then show ?thesis using Some assms by (simp add: eliminate_def final_c_def)
  next
    case fp: (Some p)
    show ?thesis
    proof (cases "kill_player t e")
      case (Inl y)
      obtain err e1 where y: "y = (err, e1)" by (cases y)
      then show ?thesis
        using Some fp Inl consistent_kill_player_Inl [OF assms, of t err e1]
        by (simp add: eliminate_def final_c_def)
    next
      case (Inr e1)
      have c0: "consistent e1" by (rule consistent_kill_player_Inr [OF assms Inr])
      then have c1: "consistent (record_vote t e1)" by (simp add: consistent_record_vote)
      have c2: "consistent (set_voted t e1)" using c0 by (simp add: consistent_def set_voted_def)
      show ?thesis
        using Some fp Inr c1 c2 consistent_process_hunter_shoot [OF c1]
        by (cases "role p") (simp_all add: eliminate_def final_c_def)
    qed
  qed
qed

lemma resolve_votes_cases:
  "resolve_votes env cs vs e = Inr (e, cs) \<or> (\<exists>x. resolve_votes env cs vs e = eliminate env cs x e)"
  by (auto simp: resolve_votes_def Let_def split: list.splits)

lemma consistent_resolve_votes:
  assumes "consistent e"
  shows "consistent (final_c (resolve_votes env cs vs e))"
  using resolve_votes_cases [of env cs vs e] assms consistent_eliminate [OF assms]
  by (auto simp: final_c_def)

lemma collect_votes_error:
  "collect_votes env e alive_ps voters vs cs = Inl (err, e') \<Longrightarrow> e' = e"
  by (induction voters arbitrary: vs cs)
     (auto split: if_splits reply.splits option.splits)

lemma consistent_phase: "consistent (e\<lparr>game_state := (game_state e)\<lparr>phase := ph\<rparr>\<rparr>) = consistent e"
  by (simp add: consistent_def)

lemma consistent_process_vote_phase:
  assumes "consistent e"
  shows "consistent (final_c (process_vote_phase env cs e))"
proof -
  let ?e1 = "e\<lparr>game_state := (game_state e)\<lparr>phase := VOTE_PHASE\<rparr>\<rparr>"
  have c1: "consistent ?e1" using assms by (simp add: consistent_phase)
  show ?thesis
  proof (cases "collect_votes env ?e1 (filter alive (players ?e1)) (filter alive (players ?e1)) [] cs")
    case (Inl x)
    obtain err e' where x: "x = (err, e')" by (cases x)
    with Inl have "e' = ?e1" using collect_votes_error by blast
    then show ?thesis using Inl x c1 by (simp add: process_vote_phase_def Let_def final_c_def)
  next
    case (Inr y)
    obtain vs cs1 where y: "y = (vs, cs1)" by (cases y)
    show ?thesis
      using Inr y consistent_resolve_votes [OF c1, of env cs1 vs]
      by (simp add: process_vote_phase_def Let_def)
  qed
qed

lemma day_speeches_state:
  "final_c (day_speeches ai cs ps e) = e"
  by (induction ps arbitrary: cs)
     (auto simp: final_c_def split: reply.splits list.splits)

lemma consistent_process_day_phase:
  assumes "consistent e"
  shows "consistent (final_c (process_day_phase ai cs e))"
  using assms by (simp add: process_day_phase_def Let_def day_speeches_state consistent_phase)


lemma update_first_keeps:
  assumes "\<And>p. pid (f p) = pid p" and "\<And>p. alive (f p) = alive p"
  shows "map pid (update_first P f ps) = map pid ps"
    and "map pid (filter alive (update_first P f ps)) = map pid (filter alive ps)"
    and "map pid (filter (\<lambda>p. \<not> alive p) (update_first P f ps))
           = map pid (filter (\<lambda>p. \<not> alive p) ps)"
  by (induction ps) (simp_all add: assms)

lemma consistent_use_antidote: "consistent (snd (use_antidote k night e na)) = consistent e"
  by (simp add: use_antidote_def consistent_def update_first_keeps)

lemma consistent_use_poison: "consistent (snd (use_poison t night e na)) = consistent e"
  by (simp add: use_poison_def consistent_def update_first_keeps)

text \<open>
  What the two requests with a fallback come to: the candidate list is not empty where a
  random choice is made, so neither step raises.
\<close>

lemma process_werewolf_action_value:
  "process_werewolf_action ai_reply r e na =
     (case filter (\<lambda>p. alive p \<and> role p = Some WEREWOLF) (players e) of
        [] \<Rightarrow> Inr na
      | w # ws \<Rightarrow>
          if kill_candidates e = [] then Inr na
          else Inr (na\<lparr>werewolf_kill :=
                       Some (if enable_ai_mode e \<and> pid w \<in> set (ai_players e)
                             then (case ai_reply of
                                     Returns (Some t) \<Rightarrow> t
                                   | Returns None \<Rightarrow> pid (pick r (kill_candidates e))
                                   | Raises \<Rightarrow> pid (pick r (kill_candidates e)))
                             else pid (pick r (kill_candidates e)))\<rparr>))"
  by (auto simp: process_werewolf_action_def kill_candidates_def random_choice_def Let_def
           split: list.splits reply.splits option.splits)

text \<open>The engine after a seer's check of \<open>t\<close>: the verdict is stored when \<open>t\<close> is a player.\<close>

lemma process_seer_action_value:
  "process_seer_action ai_reply r e na =
     (case filter (\<lambda>p. alive p \<and> role p = Some SEER) (players e) of
        [] \<Rightarrow> Inr (na, e)
      | seer # rest \<Rightarrow>
          if check_candidates seer e = [] then Inr (na, e)
          else Inr (na\<lparr>seer_check :=
                       Some (if enable_ai_mode e \<and> pid seer \<in> set (ai_players e)
                             then (case ai_reply of
                                     Returns (Some t) \<Rightarrow> t
                                   | Returns None \<Rightarrow> pid (pick r (check_candidates seer e))
                                   | Raises \<Rightarrow> pid (pick r (check_candidates seer e)))
                             else pid (pick r (check_candidates seer e)))\<rparr>,
                    checked
                      (if enable_ai_mode e \<and> pid seer \<in> set (ai_players e)
                       then (case ai_reply of
                               Returns (Some t) \<Rightarrow> t
                             | Returns None \<Rightarrow> pid (pick r (check_candidates seer e))
                             | Raises \<Rightarrow> pid (pick r (check_candidates seer e)))
                       else pid (pick r (check_candidates seer e))) e))"
  by (auto simp: process_seer_action_def check_candidates_def random_choice_def Let_def
                 checked_def
           split: list.splits reply.splits option.splits)

lemma checked_fields:
  "players (checked t e) = players e"
  "enable_ai_mode (checked t e) = enable_ai_mode e"
  "ai_players (checked t e) = ai_players e"
  "spectator_mode (checked t e) = spectator_mode e"
  "human_player_id (checked t e) = human_player_id e"
  "alive_players (game_state (checked t e)) = alive_players (game_state e)"
  "dead_players (game_state (checked t e)) = dead_players (game_state e)"
  "history (game_state (checked t e)) = history (game_state e)"
  "current_round (game_state (checked t e)) = current_round (game_state e)"
  by (simp_all add: checked_def Let_def split: option.splits)

lemma process_seer_action_cases:
  "\<exists>na' t. process_seer_action ai_reply r e na = Inr (na', e) \<or>
            process_seer_action ai_reply r e na = Inr (na', checked t e)"
  unfolding process_seer_action_value
  by (cases "filter (\<lambda>p. alive p \<and> role p = Some SEER) (players e)") auto

lemma process_werewolf_action_cases:
  "\<exists>na'. process_werewolf_action ai_reply r e na = Inr na'"
  unfolding process_werewolf_action_value
  by (cases "filter (\<lambda>p. alive p \<and> role p = Some WEREWOLF) (players e)") auto

lemma consistent_checked: "consistent (checked t e) = consistent e"
  by (simp add: consistent_def checked_fields)

lemma process_witch_action_cases:
  "process_witch_action ai_reply e na = Inl (ActorError, e) \<or>
   process_witch_action ai_reply e na = Inr (na, e) \<or>
   (\<exists>k n. process_witch_action ai_reply e na = Inr (use_antidote k n e na)) \<or>
   (\<exists>t n. process_witch_action ai_reply e na = Inr (use_poison t n e na))"
proof (cases "filter living_witch (players e)")
  case Nil
  then show ?thesis by (simp add: process_witch_action_def)
next
  case (Cons witch rest)
  show ?thesis
  proof (cases "enable_ai_mode e \<and> pid witch \<in> set (ai_players e)")
    case True
    show ?thesis
    proof (cases ai_reply)
      case Raises
      then show ?thesis using Cons True by (simp add: process_witch_action_def Let_def)
    next
      case (Returns wa)
      then show ?thesis using Cons True
        by (cases "werewolf_kill na"; cases "poison wa")
           (auto simp: process_witch_action_def Let_def)
    qed
  next
    case False
    then show ?thesis using Cons
      by (cases "werewolf_kill na") (auto simp: process_witch_action_def Let_def)
  qed
qed

lemma consistent_process_witch_action:
  assumes "consistent e"
  shows "case process_witch_action ai_reply e na of
           Inl (err, e') \<Rightarrow> consistent e'
         | Inr (na', e') \<Rightarrow> consistent e'"
proof -
  have a: "consistent (snd (use_antidote k n e na))" for k n
    using assms by (simp add: consistent_use_antidote)
  have p: "consistent (snd (use_poison t n e na))" for t n
    using assms by (simp add: consistent_use_poison)
  from process_witch_action_cases [of ai_reply e na] show ?thesis
  proof (elim disjE exE)
    assume "process_witch_action ai_reply e na = Inl (ActorError, e)"
    then show ?thesis using assms by simp
  next
    assume "process_witch_action ai_reply e na = Inr (na, e)"
    then show ?thesis using assms by simp
  next
    fix k n assume "process_witch_action ai_reply e na = Inr (use_antidote k n e na)"
    then show ?thesis using a [of k n] by (simp add: case_prod_unfold)
  next
    fix t n assume "process_witch_action ai_reply e na = Inr (use_poison t n e na)"
    then show ?thesis using p [of t n] by (simp add: case_prod_unfold)
  qed
qed

lemma consistent_night_actions_field:
  "consistent (e\<lparr>game_state := (game_state e)\<lparr>night_actions := x\<rparr>\<rparr>) = consistent e"
  by (simp add: consistent_def)

lemma consistent_process_night_phase:
  assumes "consistent e"
  shows "consistent (final (process_night_phase env e))"
proof -
  let ?e0 = "e\<lparr>game_state := (game_state e)\<lparr>phase := NIGHT\<rparr>\<rparr>"
  have c0: "consistent ?e0" using assms by (simp add: consistent_phase)
  obtain na1 where w: "process_werewolf_action (ai_werewolf env) (rnd_werewolf env) ?e0
                         NightActions_new = Inr na1"
    using process_werewolf_action_cases by blast
  obtain na2 e2 where s: "process_seer_action (ai_seer env) (rnd_seer env) ?e0 na1 = Inr (na2, e2)"
    and c2: "consistent e2"
    using process_seer_action_cases [of "ai_seer env" "rnd_seer env" ?e0 na1] c0
    by (auto simp: consistent_checked)
  show ?thesis
  proof (cases "process_witch_action (ai_witch env) e2 na2")
    case (Inl x)
    obtain err e' where x: "x = (err, e')" by (cases x)
    then show ?thesis
      using w s Inl consistent_process_witch_action [OF c2, of "ai_witch env" na2]
      by (simp add: process_night_phase_def Let_def final_def)
  next
    case (Inr y)
    obtain na3 e3 where y: "y = (na3, e3)" by (cases y)
    have "consistent e3"
      using Inr y consistent_process_witch_action [OF c2, of "ai_witch env" na2] by simp
    then have "consistent (final (for_deaths (night_deaths na3)
                 (e3\<lparr>game_state := (game_state e3)\<lparr>night_actions := Some na3\<rparr>\<rparr>)))"
      by (intro consistent_final_for_deaths) (simp add: consistent_night_actions_field)
    then show ?thesis
      using w s Inr y by (simp add: process_night_phase_def Let_def resolve_night_actions_def)
  qed
qed

lemma consistent_next_round: "consistent (next_round e) = consistent e"
  by (simp add: consistent_def next_round_def)

lemma consistent_declare_winner: "consistent (declare_winner w e) = consistent e"
  by (simp add: consistent_def declare_winner_def)

lemma assign_from_keeps:
  "assign_from i rl ps = Inr qs \<Longrightarrow> map pid qs = map pid ps \<and> map alive qs = map alive ps"
  by (induction ps arbitrary: i qs) (auto split: if_splits sum.splits)

lemma create_players_alive:
  "create_players n sp r = Inr (ps, h) \<Longrightarrow> map alive ps = replicate (nat n) True"
  by (auto simp: create_players_def Player_new_def Let_def comp_def map_replicate_const
           split: if_splits)

lemma filter_all_alive: "map alive ps = replicate n True \<Longrightarrow> filter alive ps = ps"
proof -
  assume a: "map alive ps = replicate n True"
  have "alive p" if "p \<in> set ps" for p
  proof -
    from that have "alive p \<in> set (map alive ps)" by simp
    with a show ?thesis by simp
  qed
  then show ?thesis by simp
qed

lemma consistent_initialize_game:
  assumes "initialize_game r shuffle client_ok e0 = InitOk e"
  shows "consistent e"
proof -
  from assms obtain created human ps where
    cp: "create_players (num_players e0) (spectator_mode e0) r = Inr (created, human)"
    and ar: "assign_roles shuffle created = Inr ps"
    and e: "players e = ps" "alive_players (game_state e) = map pid ps"
           "dead_players (game_state e) = []"
    by (auto simp: initialize_game_def GameState_new_def split: sum.splits if_splits)
  have ids: "map pid ps = map int [0..<nat (num_players e0)]"
    using map_pid_create_players [OF cp] assign_from_keeps [OF ar [unfolded assign_roles_def]]
    by simp
  have al: "map alive ps = replicate (nat (num_players e0)) True"
    using create_players_alive [OF cp] assign_from_keeps [OF ar [unfolded assign_roles_def]]
    by simp
  have fa: "filter alive ps = ps" using al by (rule filter_all_alive)
  then have fd: "filter (\<lambda>p. \<not> alive p) ps = []" by (metis filter_False filter_id_conv)
  have d: "distinct (map pid ps)" unfolding ids by (simp add: distinct_map)
  show ?thesis
    unfolding consistent_def using e d fa fd by simp
qed

lemma reachable_consistent: "reachable e \<Longrightarrow> consistent e"
proof (induction rule: reachable.induct)
  case (reach_init r shuffle client_ok e0 e)
  then show ?case by (rule consistent_initialize_game)
next
  case (reach_night e nenv)
  then show ?case by (simp add: consistent_process_night_phase)
next
  case (reach_resolve e na)
  then show ?case by (simp add: resolve_night_actions_def consistent_final_for_deaths)
next
  case (reach_day e ai cs)
  then show ?case by (simp add: consistent_process_day_phase)
next
  case (reach_vote e venv cs)
  then show ?case by (simp add: consistent_process_vote_phase)
next
  case (reach_tally e venv cs vs)
  then show ?case by (simp add: consistent_resolve_votes)
next
  case (reach_shot e ai_reply r cs h)
  then show ?case by (simp add: consistent_process_hunter_shoot)
next
  case (reach_round e)
  then show ?case by (simp add: consistent_next_round)
next
  case (reach_winner e w)
  then show ?case by (simp add: consistent_declare_winner)
qed


lemma consistent_facts:
  assumes c: "consistent e"
  shows "set (alive_players (game_state e)) \<inter> set (dead_players (game_state e)) = {}"
    and "set (alive_players (game_state e)) \<union> set (dead_players (game_state e))
           = set (map pid (players e))"
    and "length (alive_players (game_state e)) + length (dead_players (game_state e))
           = length (players e)"
    and "p \<in> set (players e) \<Longrightarrow> alive p \<longleftrightarrow> pid p \<in> set (alive_players (game_state e))"
    and "p \<in> set (players e) \<Longrightarrow> \<not> alive p \<longleftrightarrow> pid p \<in> set (dead_players (game_state e))"
proof -
  let ?ps = "players e" and ?a = "alive_players (game_state e)"
  let ?d = "dead_players (game_state e)"
  from c have d: "distinct (map pid ?ps)" and da: "distinct ?a" and dd: "distinct ?d"
    and a: "set ?a = set (map pid (filter alive ?ps))"
    and ds: "set ?d = set (map pid (filter (\<lambda>p. \<not> alive p) ?ps))"
    unfolding consistent_def by auto
  have inj: "inj_on pid (set ?ps)" using d by (simp add: distinct_map)
  show disj: "set ?a \<inter> set ?d = {}"
  proof (rule ccontr)
    assume "set ?a \<inter> set ?d \<noteq> {}"
    then obtain t where "t \<in> set ?a" "t \<in> set ?d" by auto
    then obtain p q where "p \<in> set ?ps" "alive p" "pid p = t" "q \<in> set ?ps" "\<not> alive q" "pid q = t"
      using a ds by auto
    then show False using inj by (auto dest: inj_onD)
  qed
  show "set ?a \<union> set ?d = set (map pid ?ps)" using a ds by auto
  have la: "length ?a = length (filter alive ?ps)"
  proof -
    have "distinct (map pid (filter alive ?ps))" using d by (rule distinct_map_filter)
    then have "card (set (map pid (filter alive ?ps))) = length (filter alive ?ps)"
      using distinct_card by fastforce
    moreover have "card (set ?a) = length ?a" using da by (rule distinct_card)
    ultimately show ?thesis using a by simp
  qed
  have ld: "length ?d = length (filter (\<lambda>p. \<not> alive p) ?ps)"
  proof -
    have "distinct (map pid (filter (\<lambda>p. \<not> alive p) ?ps))" using d by (rule distinct_map_filter)
    then have "card (set (map pid (filter (\<lambda>p. \<not> alive p) ?ps)))
                 = length (filter (\<lambda>p. \<not> alive p) ?ps)"
      using distinct_card by fastforce
    moreover have "card (set ?d) = length ?d" using dd by (rule distinct_card)
    ultimately show ?thesis using ds by simp
  qed
  show "length ?a + length ?d = length ?ps"
    using la ld sum_length_filter_compl [of alive ?ps] by simp
  show "alive p \<longleftrightarrow> pid p \<in> set ?a" if "p \<in> set ?ps"
  proof
    assume "alive p" with that show "pid p \<in> set ?a" using a by auto
  next
    assume "pid p \<in> set ?a"
    then obtain q where "q \<in> set ?ps" "alive q" "pid q = pid p" using a by auto
    with that inj show "alive p" by (auto dest: inj_onD)
  qed
  show "\<not> alive p \<longleftrightarrow> pid p \<in> set ?d" if "p \<in> set ?ps"
  proof
    assume "\<not> alive p" with that show "pid p \<in> set ?d" using ds by auto
  next
    assume "pid p \<in> set ?d"
    then obtain q where "q \<in> set ?ps" "\<not> alive q" "pid q = pid p" using ds by auto
    with that inj show "\<not> alive p" by (auto dest: inj_onD)
  qed
qed

text \<open>
  Claim C9. In every engine a game can pass through (after set-up, and after any night
  resolution, vote elimination or hunter's shot, returned or raised), the living and the
  dead id lists have no id in common, together hold exactly the players' ids, have no
  repetitions, their lengths add up to the number of players, and a player's id is in the
  living list exactly when the player's flag is set and in the dead list exactly when it
  is cleared.
\<close>

theorem reachable_alive_dead_partition:
  assumes "reachable e"
  shows "set (alive_players (game_state e)) \<inter> set (dead_players (game_state e)) = {} \<and>
         set (alive_players (game_state e)) \<union> set (dead_players (game_state e))
           = set (map pid (players e)) \<and>
         length (alive_players (game_state e)) + length (dead_players (game_state e))
           = length (players e) \<and>
         distinct (alive_players (game_state e)) \<and> distinct (dead_players (game_state e)) \<and>
         (\<forall>p \<in> set (players e). alive p \<longleftrightarrow> pid p \<in> set (alive_players (game_state e))) \<and>
         (\<forall>p \<in> set (players e). \<not> alive p \<longleftrightarrow> pid p \<in> set (dead_players (game_state e)))"
proof -
  have c: "consistent e" using assms by (rule reachable_consistent)
  then have "distinct (alive_players (game_state e)) \<and> distinct (dead_players (game_state e))"
    by (simp add: consistent_def)
  then show ?thesis
    using consistent_facts [OF c] by blast
qed

lemma example_engine_initialized:
  "initialize_game 0 (\<lambda>rl. example_roles) True (GameEngine_new True True) = InitOk example_engine"
  apply (simp add: initialize_game_def GameEngine_new_def create_players_def assign_roles_def
      example_roles_def example_engine_def example_players_def upt_rec [of _ 9] add_key_def
      Player_new_def)
  done


lemma reachable_example: "reachable example_engine"
  using example_engine_initialized by (rule reach_init)

text \<open>Every engine that the game loop ends with is one of those engines.\<close>

lemma final_display_game_result: "final (display_game_result e) = e"
  by (simp add: display_game_result_def final_def)

lemma reachable_run_game_loop:
  "reachable e \<Longrightarrow> run_game_loop envs cs e = Some res \<Longrightarrow> reachable (final res)"
proof (induction envs arbitrary: cs e res)
  case Nil
  then show ?case
    by (subst (asm) run_game_loop.simps)
       (auto simp: final_display_game_result intro: reach_winner split: if_splits option.splits)
next
  case (Cons env rest)
  note r = Cons.prems(1)
  show ?case
  proof (cases "game_over (game_state e)")
    case True
    with Cons.prems show ?thesis
      by (subst (asm) run_game_loop.simps) (auto simp: final_display_game_result)
  next
    case go: False
    show ?thesis
    proof (cases "check_winner (game_state e) (players e)")
      case (Some w)
      with go Cons.prems show ?thesis
        by (subst (asm) run_game_loop.simps)
           (auto simp: final_display_game_result intro: reach_winner)
    next
      case w0: None
      have rn: "reachable (final (process_night_phase (night_env env) e))"
        using r by (rule reach_night)
      show ?thesis
      proof (cases "process_night_phase (night_env env) e")
        case (Inl x)
        with go w0 Cons.prems(2) rn show ?thesis
          by (subst (asm) run_game_loop.simps) auto
      next
        case (Inr e1)
        then have r1: "reachable e1" using rn by (simp add: final_def)
        show ?thesis
        proof (cases "check_winner (game_state e1) (players e1)")
          case (Some w)
          with go w0 Inr Cons.prems(2) r1 show ?thesis
            by (subst (asm) run_game_loop.simps)
               (auto simp: final_display_game_result intro: reach_winner)
        next
          case w1: None
          have rd: "reachable (final_c (process_day_phase (ai_speech env) cs e1))"
            using r1 by (rule reach_day)
          show ?thesis
          proof (cases "process_day_phase (ai_speech env) cs e1")
            case dl: (Inl x)
            obtain err e' where "x = (err, e')" by (cases x)
            with go w0 Inr w1 dl Cons.prems(2) rd show ?thesis
              by (subst (asm) run_game_loop.simps) (auto simp: final_def final_c_def)
          next
            case dr: (Inr y)
            obtain e2 cs2 where y: "y = (e2, cs2)" by (cases y)
            then have r2: "reachable e2" using rd dr by (simp add: final_c_def)
            have rv: "reachable (final_c (process_vote_phase (vote_env env) cs2 e2))"
              using r2 by (rule reach_vote)
            show ?thesis
            proof (cases "process_vote_phase (vote_env env) cs2 e2")
              case vl: (Inl x)
              obtain err e' where "x = (err, e')" by (cases x)
              with go w0 Inr w1 dr y vl Cons.prems(2) rv show ?thesis
                by (subst (asm) run_game_loop.simps) (auto simp: final_def final_c_def)
            next
              case vr: (Inr z)
              obtain e3 cs3 where z: "z = (e3, cs3)" by (cases z)
              then have "reachable e3" using rv vr by (simp add: final_c_def)
              then have r3: "reachable (next_round e3)" by (rule reach_round)
              have "run_game_loop rest cs3 (next_round e3) = Some res"
                using go w0 Inr w1 dr y vr z Cons.prems(2)
                by (subst (asm) run_game_loop.simps) simp
              then show ?thesis using Cons.IH [OF r3] by simp
            qed
          qed
        qed
      qed
    qed
  qed
qed

subsection \<open>Every player keeps the role given at set-up\<close>























subsection \<open>Votes at the nine-player table\<close>



lemma candidates_hunter: "candidates votes_hunter = {Some 6}"
  by (auto simp: candidates_def votes_hunter_def tally_def)


lemma find_by_pid:
  "distinct (map pid ps) \<Longrightarrow> p \<in> set ps \<Longrightarrow> find (\<lambda>q. pid q = pid p) ps = Some p"
  by (induction ps) (auto simp: rev_image_eqI)


lemma pid_example_player: "i < 9 \<Longrightarrow> pid (example_players ! i) = int i"
  by (simp add: example_players_def Player_new_def)

lemma role_example_player: "i < 9 \<Longrightarrow> role (example_players ! i) = Some (example_roles ! i)"
  by (simp add: example_players_def Player_new_def)

lemma alive_example_player: "i < 9 \<Longrightarrow> alive (example_players ! i)"
  by (simp add: example_players_def Player_new_def)


lemma players_example_list:
  "players example_engine =
     [example_players ! 0, example_players ! 1, example_players ! 2, example_players ! 3,
      example_players ! 4, example_players ! 5, example_players ! 6, example_players ! 7,
      example_players ! 8]"
  by (simp add: example_engine_def example_players_def upt_rec [of _ 9])

lemma example_flags:
  "enable_ai_mode example_engine" "spectator_mode example_engine"
  "ai_players example_engine = [0, 1, 2, 3, 4, 5, 6, 7, 8]"
  "human_player_id example_engine = None"
  "history (game_state example_engine) = []"
  "current_round (game_state example_engine) = 1"
  "dead_players (game_state example_engine) = []"
  "voted_player (game_state example_engine) = None"
  using pids_example by (simp_all add: example_engine_def GameState_new_def)

lemma find_example:
  assumes "i < 9"
  shows "find (\<lambda>p. pid p = int i) (players example_engine) = Some (example_players ! i)"
proof -
  have d: "distinct (map pid (players example_engine))"
    using consistent_example by (simp add: consistent_def)
  have m: "example_players ! i \<in> set (players example_engine)"
    using assms by (simp add: example_engine_def example_players_def)
  show ?thesis
    using find_by_pid [OF d m] pid_example_player [OF assms] by simp
qed


lemma example_hunter_shot:
  "resolve_votes example_vote_env [] votes_hunter example_engine
     = Inr (killed 7 (record_vote 6 (killed 6 example_engine)), [])"
proof -
  let ?e1 = "record_vote 6 (killed 6 example_engine)"
  have a6: "6 \<in> set (alive_players (game_state example_engine))"
    by (simp add: alive_ids_example)
  have f6: "find (\<lambda>p. pid p = 6) (players example_engine) = Some (example_players ! 6)"
    using find_example [of 6] by simp
  have r6: "role (example_players ! 6) = Some HUNTER"
    using role_example_player [of 6] by (simp add: example_roles_def)
  have c1: "consistent ?e1" by (rule consistent_vote_killed [OF consistent_example a6])
  have a7: "7 \<in> set (alive_players (game_state ?e1))"
    by (simp add: record_vote_fields killed_fields alive_ids_example)
  have ai: "\<not> (\<not> spectator_mode ?e1 \<and> Some (pid (example_players ! 6)) = human_player_id ?e1)"
           "enable_ai_mode ?e1 \<and> pid (example_players ! 6) \<in> set (ai_players ?e1)"
    by (simp_all add: record_vote_fields killed_fields example_flags pid_example_player)
  have "process_hunter_shoot (ai_hunter example_vote_env) (rnd_hunter example_vote_env) []
          (example_players ! 6) ?e1 = Inr (killed 7 ?e1, [])"
    using ai kill_player_alive [OF c1 a7]
    by (simp add: process_hunter_shoot_def example_vote_env_def)
  then show ?thesis
    using resolve_votes_unique [OF candidates_hunter, of example_vote_env "[]" example_engine]
      eliminate_alive [OF consistent_example a6 f6 r6, of example_vote_env "[]"]
    by simp
qed

lemma reachable_after_shot: "reachable (killed 7 (record_vote 6 (killed 6 example_engine)))"
proof -
  have "reachable (final_c (resolve_votes example_vote_env [] votes_hunter example_engine))"
    using reachable_example by (rule reach_tally)
  then show ?thesis by (simp add: example_hunter_shot final_c_def)
qed

lemma after_shot_fields:
  "alive_players (game_state (killed 7 (record_vote 6 (killed 6 example_engine))))
     = [0, 1, 2, 3, 4, 5, 8]"
  "dead_players (game_state (killed 7 (record_vote 6 (killed 6 example_engine)))) = [6, 7]"
  "length (players (killed 7 (record_vote 6 (killed 6 example_engine)))) = 9"
  "players (killed 7 (record_vote 6 (killed 6 example_engine)))
     = [example_players ! 0, example_players ! 1, example_players ! 2, example_players ! 3,
        example_players ! 4, example_players ! 5, (example_players ! 6)\<lparr>alive := False\<rparr>,
        (example_players ! 7)\<lparr>alive := False\<rparr>, example_players ! 8]"
  by (simp_all add: killed_fields record_vote_fields alive_ids_example example_flags
      players_example_list pid_example_player)

theorem reachable_alive_dead_partition_witness:
  "reachable (killed 7 (record_vote 6 (killed 6 example_engine))) \<and>
   alive_players (game_state (killed 7 (record_vote 6 (killed 6 example_engine))))
     = [0, 1, 2, 3, 4, 5, 8] \<and>
   dead_players (game_state (killed 7 (record_vote 6 (killed 6 example_engine)))) = [6, 7] \<and>
   set (alive_players (game_state (killed 7 (record_vote 6 (killed 6 example_engine)))))
     \<inter> set (dead_players (game_state (killed 7 (record_vote 6 (killed 6 example_engine))))) = {} \<and>
   set (alive_players (game_state (killed 7 (record_vote 6 (killed 6 example_engine)))))
     \<union> set (dead_players (game_state (killed 7 (record_vote 6 (killed 6 example_engine)))))
     = set (map pid (players (killed 7 (record_vote 6 (killed 6 example_engine))))) \<and>
   length (alive_players (game_state (killed 7 (record_vote 6 (killed 6 example_engine)))))
     + length (dead_players (game_state (killed 7 (record_vote 6 (killed 6 example_engine)))))
     = length (players (killed 7 (record_vote 6 (killed 6 example_engine)))) \<and>
   length (players (killed 7 (record_vote 6 (killed 6 example_engine)))) = 9"
proof -
  let ?e = "killed 7 (record_vote 6 (killed 6 example_engine))"
  have r: "reachable ?e" by (rule reachable_after_shot)
  from reachable_alive_dead_partition [OF r] r after_shot_fields(1-3) show ?thesis by simp
qed

subsection \<open>The vote: a single top target, or a tie\<close>










subsection \<open>The hunter's shot after a vote\<close>




subsection \<open>Role assignment\<close>

lemma assign_from_zip:
  "i \<le> length rl \<Longrightarrow>
   assign_from i rl ps =
     (if i + length ps \<le> length rl
      then Inr (map (\<lambda>(p, r). p\<lparr>role := Some r\<rparr>) (zip ps (drop i rl)))
      else Inl IndexError)"
proof (induction ps arbitrary: i)
  case Nil
  then show ?case by simp
next
  case (Cons p ps)
  show ?case
  proof (cases "i < length rl")
    case True
    then have d: "drop i rl = rl ! i # drop (Suc i) rl" by (simp add: Cons_nth_drop_Suc)
    have "Suc i \<le> length rl" using True by simp
    then show ?thesis using True Cons.IH [of "Suc i"] d by auto
  next
    case False
    then show ?thesis by simp
  qed
qed

lemma length_role_list: "length role_list = 9"
  by (simp add: role_list_def role_distribution_def)

lemma pick_mem: "xs \<noteq> [] \<Longrightarrow> pick r xs \<in> set xs"
  by (simp add: pick_def)


lemma assign_roles_with_roles:
  "assign_roles shuffle ps =
     (if length ps \<le> length (shuffle role_list)
      then Inr (with_roles ps (shuffle role_list)) else Inl IndexError)"
  using assign_from_zip [of 0 "shuffle role_list" ps]
  by (simp add: assign_roles_def with_roles_def)

lemma map_role_with_roles: "map role (with_roles ps rs) = map Some (take (length ps) rs)"
proof (induction ps arbitrary: rs)
  case Nil
  then show ?case by (simp add: with_roles_def)
next
  case (Cons p ps)
  then show ?case by (cases rs) (simp_all add: with_roles_def)
qed

lemma map_pid_with_roles:
  "length ps \<le> length rs \<Longrightarrow> map pid (with_roles ps rs) = map pid ps"
proof (induction ps arbitrary: rs)
  case Nil
  then show ?case by (simp add: with_roles_def)
next
  case (Cons p ps)
  then show ?case by (cases rs) (simp_all add: with_roles_def)
qed

lemma mset_take_subset: "mset (take n xs) \<subseteq># mset xs"
proof -
  have "mset xs = mset (take n xs) + mset (drop n xs)"
    by (metis append_take_drop_id mset_append)
  then show ?thesis by simp
qed

lemma initialize_game_too_many:
  assumes "length (shuffle role_list) < nat (num_players e0)"
  shows "initialize_game r shuffle client_ok e0 = InitFailed"
proof -
  from assms have pos: "0 < num_players e0" by simp
  then obtain ps h where
    cp: "create_players (num_players e0) (spectator_mode e0) r = Inr (ps, h)"
    by (auto simp: create_players_def Let_def)
  have "length ps = nat (num_players e0)"
    using arg_cong [OF map_pid_create_players [OF cp], of length] by simp
  then have "assign_roles shuffle ps = Inl IndexError"
    using assms by (simp add: assign_roles_with_roles)
  then show ?thesis using cp by (simp add: initialize_game_def)
qed

text \<open>
  Claim C3, as amended. \<^verbatim>\<open>assign_roles\<close> works from its own fixed list of nine roles
  and never compares sizes. For any shuffle that permutes that list: with more than nine
  players it raises \<^verbatim>\<open>IndexError\<close>; with nine or fewer it returns the players, each with
  its id kept and with the role at its position of the shuffled list, so that the roles
  given out are part of the configured multiset, and all of it when there are exactly
  nine players. An engine set to more than nine players fails in \<^verbatim>\<open>initialize_game\<close>, and
  \<^verbatim>\<open>start\<close> then returns before the game loop runs.
\<close>

theorem assign_roles_fixed_distribution:
  assumes sh: "mset (shuffle role_list) = mset role_list"
  shows "(9 < length ps \<longrightarrow> assign_roles shuffle ps = Inl IndexError) \<and>
         (length ps \<le> 9 \<longrightarrow>
            assign_roles shuffle ps = Inr (with_roles ps (shuffle role_list)) \<and>
            map pid (with_roles ps (shuffle role_list)) = map pid ps \<and>
            map role (with_roles ps (shuffle role_list))
              = map Some (take (length ps) (shuffle role_list)) \<and>
            mset (map role (with_roles ps (shuffle role_list))) \<subseteq># mset (map Some role_list)) \<and>
         (length ps = 9 \<longrightarrow>
            mset (map role (with_roles ps (shuffle role_list))) = mset (map Some role_list)) \<and>
         (9 < num_players e0 \<longrightarrow>
            initialize_game r shuffle client_ok e0 = InitFailed \<and>
            start r shuffle client_ok envs cs e0 = NotStarted)"
proof -
  have len: "length (shuffle role_list) = 9"
    using sh length_role_list by (metis size_mset)
  have sub: "mset (map role (with_roles ps (shuffle role_list))) \<subseteq># mset (map Some role_list)"
  proof -
    have "mset (take (length ps) (shuffle role_list)) \<subseteq># mset role_list"
      using mset_take_subset [of "length ps" "shuffle role_list"] sh by simp
    then have "image_mset Some (mset (take (length ps) (shuffle role_list)))
                 \<subseteq># image_mset Some (mset role_list)"
      by (rule image_mset_subseteq_mono)
    then show ?thesis by (simp add: map_role_with_roles)
  qed
  have full: "mset (map role (with_roles ps (shuffle role_list))) = mset (map Some role_list)"
    if "length ps = 9"
    using that len sh by (simp add: map_role_with_roles)
  have fail: "initialize_game r shuffle client_ok e0 = InitFailed" if "9 < num_players e0"
    using that len by (intro initialize_game_too_many) simp
  show ?thesis
    using len sub full fail
    by (auto simp: assign_roles_with_roles map_role_with_roles map_pid_with_roles start_def)
qed

lemma mset_example_roles: "mset example_roles = mset role_list"
  by (simp add: example_roles_def role_list_def role_distribution_def eval_nat_numeral)


lemma with_roles_example: "with_roles example_players example_roles = example_players"
  by (simp add: with_roles_def example_players_def example_roles_def upt_rec [of _ 9]
      Player_new_def)

lemma length_example_players: "length example_players = 9"
  by (simp add: example_players_def)

theorem assign_roles_fixed_distribution_witness:
  "mset ((\<lambda>rl. example_roles) role_list) = mset role_list \<and>
   length example_players = 9 \<and>
   assign_roles (\<lambda>rl. example_roles) example_players = Inr example_players \<and>
   mset (map role example_players) = mset (map Some role_list) \<and>
   length (example_players @ [Player_new 9 [] True]) = 10 \<and>
   assign_roles (\<lambda>rl. example_roles) (example_players @ [Player_new 9 [] True])
     = Inl IndexError \<and>
   num_players ((GameEngine_new True True)\<lparr>num_players := 10\<rparr>) = 10 \<and>
   start 0 (\<lambda>rl. example_roles) True [] [] ((GameEngine_new True True)\<lparr>num_players := 10\<rparr>)
     = NotStarted"
proof -
  have sh: "mset ((\<lambda>rl. example_roles) role_list) = mset role_list"
    by (simp add: mset_example_roles)
  have n10: "num_players ((GameEngine_new True True)\<lparr>num_players := 10\<rparr>) = 10" by simp
  note nine = assign_roles_fixed_distribution [OF sh, of example_players
                "(GameEngine_new True True)\<lparr>num_players := 10\<rparr>" 0 True "[]" "[]"]
  note ten = assign_roles_fixed_distribution [OF sh, of "example_players @ [Player_new 9 [] True]"
                "(GameEngine_new True True)\<lparr>num_players := 10\<rparr>" 0 True "[]" "[]"]
  have a9: "assign_roles (\<lambda>rl. example_roles) example_players = Inr example_players"
    using nine by (simp add: length_example_players with_roles_example)
  have m9: "mset (map role example_players) = mset (map Some role_list)"
  proof -
    from nine have "length example_players = 9 \<longrightarrow>
        mset (map role (with_roles example_players example_roles)) = mset (map Some role_list)"
      by blast
    then show ?thesis
      unfolding with_roles_example using length_example_players by blast
  qed
  have l10: "length (example_players @ [Player_new 9 [] True]) = 10"
    by (simp add: length_example_players)
  have a10: "assign_roles (\<lambda>rl. example_roles) (example_players @ [Player_new 9 [] True])
               = Inl IndexError"
    using ten l10 by simp
  have s10: "start 0 (\<lambda>rl. example_roles) True [] []
               ((GameEngine_new True True)\<lparr>num_players := 10\<rparr>) = NotStarted"
    using ten n10 by simp
  show ?thesis
    using sh length_example_players a9 m9 l10 a10 n10 s10 by blast
qed

text \<open>
  Claim C3 as stated fails. The configured roles are nine; for eight players
  \<^verbatim>\<open>assign_roles\<close> raises nothing and hands out the first eight roles, and an engine set
  to eight players is set up without a failure.
\<close>

theorem assign_roles_eight_players_no_error:
  "length role_list = 9 \<and> length eight_players = 8 \<and>
   map_sum id (map role) (assign_roles id eight_players)
     = Inr [Some SEER, Some WITCH, Some HUNTER, Some VILLAGER, Some VILLAGER, Some VILLAGER,
            Some WEREWOLF, Some WEREWOLF] \<and>
   initialize_game 0 id True ((GameEngine_new True True)\<lparr>num_players := 8\<rparr>) \<noteq> InitFailed"
proof -
  have l8: "length eight_players = 8" by (simp add: eight_players_def)
  have rl: "role_list = [SEER, WITCH, HUNTER, VILLAGER, VILLAGER, VILLAGER,
                         WEREWOLF, WEREWOLF, WEREWOLF]"
    by (simp add: role_list_def role_distribution_def eval_nat_numeral)
  have a: "assign_roles id eight_players = Inr (with_roles eight_players role_list)"
    using l8 length_role_list by (simp add: assign_roles_with_roles)
  have m: "map role (with_roles eight_players role_list)
             = [Some SEER, Some WITCH, Some HUNTER, Some VILLAGER, Some VILLAGER, Some VILLAGER,
                Some WEREWOLF, Some WEREWOLF]"
    using l8 by (simp add: map_role_with_roles rl)
  have cp: "create_players 8 True 0 = Inr (eight_players, None)"
    by (simp add: create_players_def eight_players_def)
  have i: "initialize_game 0 id True ((GameEngine_new True True)\<lparr>num_players := 8\<rparr>) \<noteq> InitFailed"
    using cp a by (simp add: initialize_game_def GameEngine_new_def)
  show ?thesis using length_role_list l8 a m i by simp
qed

subsection \<open>The answers of the outside world\<close>

lemma process_werewolf_action_fallback:
  assumes "ai_reply = Raises \<or> ai_reply = Returns None"
    and "filter (\<lambda>p. alive p \<and> role p = Some WEREWOLF) (players e) = w # ws"
    and "kill_candidates e \<noteq> []"
  shows "process_werewolf_action ai_reply r e na
           = Inr (na\<lparr>werewolf_kill := Some (pid (pick r (kill_candidates e)))\<rparr>)"
  using assms unfolding process_werewolf_action_value by auto

lemma process_werewolf_action_stored:
  assumes "filter (\<lambda>p. alive p \<and> role p = Some WEREWOLF) (players e) = w # ws"
    and "kill_candidates e \<noteq> []"
    and "enable_ai_mode e \<and> pid w \<in> set (ai_players e)"
  shows "process_werewolf_action (Returns (Some t)) r e na = Inr (na\<lparr>werewolf_kill := Some t\<rparr>)"
  using assms unfolding process_werewolf_action_value by auto

lemma process_seer_action_fallback:
  assumes "ai_reply = Raises \<or> ai_reply = Returns None"
    and "filter (\<lambda>p. alive p \<and> role p = Some SEER) (players e) = seer # rest"
    and "check_candidates seer e \<noteq> []"
  shows "process_seer_action ai_reply r e na
           = Inr (na\<lparr>seer_check := Some (pid (pick r (check_candidates seer e)))\<rparr>,
                  checked (pid (pick r (check_candidates seer e))) e)"
  using assms unfolding process_seer_action_value by auto

lemma process_seer_action_stored:
  assumes "filter (\<lambda>p. alive p \<and> role p = Some SEER) (players e) = seer # rest"
    and "check_candidates seer e \<noteq> []"
    and "enable_ai_mode e \<and> pid seer \<in> set (ai_players e)"
  shows "process_seer_action (Returns (Some t)) r e na
           = Inr (na\<lparr>seer_check := Some t\<rparr>, checked t e)"
  using assms unfolding process_seer_action_value by auto

lemma process_werewolf_action_no_error:
  "error_of (process_werewolf_action ai_reply r e na) = None"
  using process_werewolf_action_cases [of ai_reply r e na] by (auto simp: error_of_def)

lemma process_seer_action_no_error:
  "error_of (process_seer_action ai_reply r e na) = None"
  using process_seer_action_cases [of ai_reply r e na] by (auto simp: error_of_def)

lemma collect_votes_human:
  assumes "\<not> (is_ai voter \<and> enable_ai_mode e \<and> pid voter \<in> set (ai_players e))"
    and "\<not> spectator_mode e \<and> Some (pid voter) = human_player_id e"
  shows "collect_votes env e ps (voter # voters) vs cs =
           (case human_vote_loop (map pid (filter (\<lambda>p. pid p \<noteq> pid voter) ps)) cs of
              None \<Rightarrow> Inl (EOFError, e)
            | Some (tid, cs') \<Rightarrow>
                collect_votes env e ps voters (AList.update (pid voter) (Some tid) vs) cs')"
  using assms by auto

text \<open>
  Claim C4, as amended. The requests for the werewolves' target and for the seer's check
  never fail. When the AI player asked raises or answers \<^verbatim>\<open>None\<close>, the engine stores the
  random choice from the legal candidates instead: a living player that is no werewolf,
  respectively a living player other than the seer. Any id that the AI player does
  return is stored as it is, whether it names a legal candidate or not. A human voter's
  and a human hunter's entries are passed over as long as they are no valid target (no
  number, or not the id of a living player, for the voter other than the voter); the
  first valid entry is taken, and when the entries run out the input fails.
\<close>

theorem actor_failure_fallback:
  "error_of (process_werewolf_action ai_reply r e na) = None \<and>
   error_of (process_seer_action ai_reply r e na) = None \<and>
   (filter (\<lambda>p. alive p \<and> role p = Some WEREWOLF) (players e) = w # ws \<and>
    kill_candidates e \<noteq> []
      \<longrightarrow> process_werewolf_action Raises r e na
            = Inr (na\<lparr>werewolf_kill := Some (pid (pick r (kill_candidates e)))\<rparr>) \<and>
          process_werewolf_action (Returns None) r e na
            = Inr (na\<lparr>werewolf_kill := Some (pid (pick r (kill_candidates e)))\<rparr>) \<and>
          (enable_ai_mode e \<and> pid w \<in> set (ai_players e)
             \<longrightarrow> process_werewolf_action (Returns (Some t)) r e na
                   = Inr (na\<lparr>werewolf_kill := Some t\<rparr>)) \<and>
          pick r (kill_candidates e) \<in> set (players e) \<and>
          alive (pick r (kill_candidates e)) \<and>
          role (pick r (kill_candidates e)) \<noteq> Some WEREWOLF) \<and>
   (filter (\<lambda>p. alive p \<and> role p = Some SEER) (players e) = seer # rest \<and>
    check_candidates seer e \<noteq> []
      \<longrightarrow> process_seer_action Raises r e na
            = Inr (na\<lparr>seer_check := Some (pid (pick r (check_candidates seer e)))\<rparr>,
                   checked (pid (pick r (check_candidates seer e))) e) \<and>
          process_seer_action (Returns None) r e na
            = Inr (na\<lparr>seer_check := Some (pid (pick r (check_candidates seer e)))\<rparr>,
                   checked (pid (pick r (check_candidates seer e))) e) \<and>
          (enable_ai_mode e \<and> pid seer \<in> set (ai_players e)
             \<longrightarrow> process_seer_action (Returns (Some t)) r e na
                   = Inr (na\<lparr>seer_check := Some t\<rparr>, checked t e)) \<and>
          pick r (check_candidates seer e) \<in> set (players e) \<and>
          alive (pick r (check_candidates seer e)) \<and>
          pid (pick r (check_candidates seer e)) \<noteq> pid seer) \<and>
   (\<not> (is_ai voter \<and> enable_ai_mode e \<and> pid voter \<in> set (ai_players e)) \<and>
    \<not> spectator_mode e \<and> Some (pid voter) = human_player_id e \<and>
    list_all (rejected (map pid (filter (\<lambda>p. pid p \<noteq> pid voter) ps))) pre
      \<longrightarrow> (s \<in> set (map pid (filter (\<lambda>p. pid p \<noteq> pid voter) ps))
             \<longrightarrow> collect_votes env e ps (voter # voters) vs (pre @ Some s # post)
                   = collect_votes env e ps voters (AList.update (pid voter) (Some s) vs) post) \<and>
          collect_votes env e ps (voter # voters) vs pre = Inl (EOFError, e)) \<and>
   (consistent e \<and> \<not> spectator_mode e \<and> Some (pid h) = human_player_id e \<and>
    list_all (rejected (map pid (filter alive (players e)))) pre
      \<longrightarrow> (s \<in> set (map pid (filter alive (players e)))
             \<longrightarrow> process_hunter_shoot ai_h rh (pre @ Some s # post) h e
                   = Inr (killed s e, post)) \<and>
          process_hunter_shoot ai_h rh pre h e = Inl (EOFError, e))"
proof (intro conjI impI)
  show "error_of (process_werewolf_action ai_reply r e na) = None"
    by (rule process_werewolf_action_no_error)
  show "error_of (process_seer_action ai_reply r e na) = None"
    by (rule process_seer_action_no_error)
next
  assume a: "filter (\<lambda>p. alive p \<and> role p = Some WEREWOLF) (players e) = w # ws \<and>
             kill_candidates e \<noteq> []"
  then have w: "filter (\<lambda>p. alive p \<and> role p = Some WEREWOLF) (players e) = w # ws"
    and k: "kill_candidates e \<noteq> []" by simp_all
  show "process_werewolf_action Raises r e na
            = Inr (na\<lparr>werewolf_kill := Some (pid (pick r (kill_candidates e)))\<rparr>)"
    by (rule process_werewolf_action_fallback [OF _ w k]) simp
  show "process_werewolf_action (Returns None) r e na
            = Inr (na\<lparr>werewolf_kill := Some (pid (pick r (kill_candidates e)))\<rparr>)"
    by (rule process_werewolf_action_fallback [OF _ w k]) simp
  from k have m: "pick r (kill_candidates e) \<in> set (kill_candidates e)"
    by (rule pick_mem)
  then show "pick r (kill_candidates e) \<in> set (players e)"
    and "alive (pick r (kill_candidates e))"
    and "role (pick r (kill_candidates e)) \<noteq> Some WEREWOLF"
    by (simp_all add: kill_candidates_def)
  assume "enable_ai_mode e \<and> pid w \<in> set (ai_players e)"
  then show "process_werewolf_action (Returns (Some t)) r e na
               = Inr (na\<lparr>werewolf_kill := Some t\<rparr>)"
    by (rule process_werewolf_action_stored [OF w k])
next
  assume a: "filter (\<lambda>p. alive p \<and> role p = Some SEER) (players e) = seer # rest \<and>
             check_candidates seer e \<noteq> []"
  then have w: "filter (\<lambda>p. alive p \<and> role p = Some SEER) (players e) = seer # rest"
    and k: "check_candidates seer e \<noteq> []" by simp_all
  show "process_seer_action Raises r e na
            = Inr (na\<lparr>seer_check := Some (pid (pick r (check_candidates seer e)))\<rparr>,
                   checked (pid (pick r (check_candidates seer e))) e)"
    by (rule process_seer_action_fallback [OF _ w k]) simp
  show "process_seer_action (Returns None) r e na
            = Inr (na\<lparr>seer_check := Some (pid (pick r (check_candidates seer e)))\<rparr>,
                   checked (pid (pick r (check_candidates seer e))) e)"
    by (rule process_seer_action_fallback [OF _ w k]) simp
  from k have m: "pick r (check_candidates seer e) \<in> set (check_candidates seer e)"
    by (rule pick_mem)
  then show "pick r (check_candidates seer e) \<in> set (players e)"
    and "alive (pick r (check_candidates seer e))"
    and "pid (pick r (check_candidates seer e)) \<noteq> pid seer"
    by (simp_all add: check_candidates_def)
  assume "enable_ai_mode e \<and> pid seer \<in> set (ai_players e)"
  then show "process_seer_action (Returns (Some t)) r e na
               = Inr (na\<lparr>seer_check := Some t\<rparr>, checked t e)"
    by (rule process_seer_action_stored [OF w k])
next
  assume a: "\<not> (is_ai voter \<and> enable_ai_mode e \<and> pid voter \<in> set (ai_players e)) \<and>
    \<not> spectator_mode e \<and> Some (pid voter) = human_player_id e \<and>
    list_all (rejected (map pid (filter (\<lambda>p. pid p \<noteq> pid voter) ps))) pre"
  then have h1: "\<not> (is_ai voter \<and> enable_ai_mode e \<and> pid voter \<in> set (ai_players e))"
    and h2: "\<not> spectator_mode e \<and> Some (pid voter) = human_player_id e"
    and rj: "list_all (rejected (map pid (filter (\<lambda>p. pid p \<noteq> pid voter) ps))) pre"
    by simp_all
  show "collect_votes env e ps (voter # voters) vs pre = Inl (EOFError, e)"
    unfolding collect_votes_human [OF h1 h2]
    by (simp add: human_vote_loop_exhausted [OF rj])
  assume "s \<in> set (map pid (filter (\<lambda>p. pid p \<noteq> pid voter) ps))"
  then show "collect_votes env e ps (voter # voters) vs (pre @ Some s # post)
               = collect_votes env e ps voters (AList.update (pid voter) (Some s) vs) post"
    unfolding collect_votes_human [OF h1 h2]
    by (simp add: human_vote_loop_accepts [OF rj])
next
  assume a: "consistent e \<and> \<not> spectator_mode e \<and> Some (pid h) = human_player_id e \<and>
    list_all (rejected (map pid (filter alive (players e)))) pre"
  then have c: "consistent e"
    and h2: "\<not> spectator_mode e \<and> Some (pid h) = human_player_id e"
    and rj: "list_all (rejected (map pid (filter alive (players e)))) pre"
    by simp_all
  have sub: "set (map pid (filter alive (players e))) \<subseteq> set (alive_players (game_state e))"
    using alive_ids_of_flags [OF c] by simp
  show "process_hunter_shoot ai_h rh pre h e = Inl (EOFError, e)"
    using h2 by (simp add: process_hunter_shoot_def human_hunter_loop_exhausted [OF rj])
  assume "s \<in> set (map pid (filter alive (players e)))"
  then show "process_hunter_shoot ai_h rh (pre @ Some s # post) h e = Inr (killed s e, post)"
    using h2 human_hunter_loop_accepts [OF c sub rj, of s post]
    by (simp add: process_hunter_shoot_def)
qed

lemma example_living_werewolves:
  "filter (\<lambda>p. alive p \<and> role p = Some WEREWOLF) (players example_engine)
     = [example_players ! 1, example_players ! 2, example_players ! 7]"
  by (simp add: players_example_list alive_example_player role_example_player example_roles_def)

lemma example_kill_candidates:
  "kill_candidates example_engine
     = [example_players ! 0, example_players ! 3, example_players ! 4, example_players ! 5,
        example_players ! 6, example_players ! 8]"
  by (simp add: kill_candidates_def players_example_list alive_example_player
      role_example_player example_roles_def)

lemma example_living_seers:
  "filter (\<lambda>p. alive p \<and> role p = Some SEER) (players example_engine) = [example_players ! 0]"
  by (simp add: players_example_list alive_example_player role_example_player example_roles_def)

lemma example_check_candidates:
  "check_candidates (example_players ! 0) example_engine
     = [example_players ! 1, example_players ! 2, example_players ! 3, example_players ! 4,
        example_players ! 5, example_players ! 6, example_players ! 7, example_players ! 8]"
  by (simp add: check_candidates_def players_example_list alive_example_player
      pid_example_player)

lemma example_living_witches:
  "filter living_witch (players example_engine) = [example_players ! 4]"
  by (simp add: living_witch_def players_example_list alive_example_player
      role_example_player example_roles_def)

lemma checked_nobody:
  assumes "t \<notin> set (map pid (players e))"
  shows "checked t e = e"
proof -
  from assms have "find (\<lambda>p. pid p = t) (players e) = None"
    by (auto simp: find_None_iff)
  then show ?thesis by (simp add: checked_def)
qed

lemma human_players_list:
  "players human_engine =
     [example_players ! 0, example_players ! 1, example_players ! 2, example_players ! 3,
      example_players ! 4, example_players ! 5, (example_players ! 6)\<lparr>is_ai := False\<rparr>,
      example_players ! 7, example_players ! 8]"
  by (simp add: human_engine_def example_players_def upt_rec [of _ 9])

lemma human_flags:
  "enable_ai_mode human_engine" "\<not> spectator_mode human_engine"
  "ai_players human_engine = [0, 1, 2, 3, 4, 5, 7, 8]"
  "human_player_id human_engine = Some 6"
  "alive_players (game_state human_engine) = [0, 1, 2, 3, 4, 5, 6, 7, 8]"
  "dead_players (game_state human_engine) = []"
  by (simp_all add: human_engine_def GameState_new_def example_players_def Player_new_def
      upt_rec [of _ 9])

lemma human_engine_initialized:
  "initialize_game 6 (\<lambda>rl. example_roles) True (GameEngine_new True False) = InitOk human_engine"
  by (simp add: initialize_game_def GameEngine_new_def create_players_def assign_roles_def
      example_roles_def human_engine_def example_players_def upt_rec [of _ 9] add_key_def
      Player_new_def)

lemma consistent_human: "consistent human_engine"
  using human_engine_initialized by (intro reachable_consistent reach_init)

lemma human_after_vote:
  "consistent (record_vote 6 (killed 6 human_engine))"
  "\<not> spectator_mode (record_vote 6 (killed 6 human_engine))"
  "human_player_id (record_vote 6 (killed 6 human_engine)) = Some 6"
  "map pid (filter alive (players (record_vote 6 (killed 6 human_engine))))
     = [0, 1, 2, 3, 4, 5, 7, 8]"
proof -
  have a6: "6 \<in> set (alive_players (game_state human_engine))" by (simp add: human_flags)
  show "consistent (record_vote 6 (killed 6 human_engine))"
    by (rule consistent_vote_killed [OF consistent_human a6])
  show "\<not> spectator_mode (record_vote 6 (killed 6 human_engine))"
    "human_player_id (record_vote 6 (killed 6 human_engine)) = Some 6"
    by (simp_all add: record_vote_fields killed_fields human_flags)
  show "map pid (filter alive (players (record_vote 6 (killed 6 human_engine))))
     = [0, 1, 2, 3, 4, 5, 7, 8]"
    by (simp add: record_vote_fields killed_fields human_players_list pid_example_player
        alive_example_player)
qed

theorem actor_failure_fallback_witness:
  "filter (\<lambda>p. alive p \<and> role p = Some WEREWOLF) (players example_engine)
     = [example_players ! 1, example_players ! 2, example_players ! 7] \<and>
   kill_candidates example_engine \<noteq> [] \<and>
   enable_ai_mode example_engine \<and> pid (example_players ! 1) \<in> set (ai_players example_engine) \<and>
   process_werewolf_action Raises 4 example_engine NightActions_new
     = Inr (NightActions_new\<lparr>werewolf_kill := Some 6\<rparr>) \<and>
   process_werewolf_action (Returns None) 4 example_engine NightActions_new
     = Inr (NightActions_new\<lparr>werewolf_kill := Some 6\<rparr>) \<and>
   process_werewolf_action (Returns (Some 42)) 4 example_engine NightActions_new
     = Inr (NightActions_new\<lparr>werewolf_kill := Some 42\<rparr>) \<and>
   role (example_players ! 6) = Some HUNTER \<and>
   filter (\<lambda>p. alive p \<and> role p = Some SEER) (players example_engine) = [example_players ! 0] \<and>
   check_candidates (example_players ! 0) example_engine \<noteq> [] \<and>
   pid (example_players ! 0) \<in> set (ai_players example_engine) \<and>
   process_seer_action Raises 4 example_engine NightActions_new
     = Inr (NightActions_new\<lparr>seer_check := Some 5\<rparr>, checked 5 example_engine) \<and>
   process_seer_action (Returns (Some 42)) 4 example_engine NightActions_new
     = Inr (NightActions_new\<lparr>seer_check := Some 42\<rparr>, example_engine) \<and>
   \<not> (is_ai (players human_engine ! 6) \<and> enable_ai_mode human_engine \<and>
      pid (players human_engine ! 6) \<in> set (ai_players human_engine)) \<and>
   \<not> spectator_mode human_engine \<and>
   Some (pid (players human_engine ! 6)) = human_player_id human_engine \<and>
   map pid (filter (\<lambda>p. pid p \<noteq> pid (players human_engine ! 6)) (players human_engine))
     = [0, 1, 2, 3, 4, 5, 7, 8] \<and>
   list_all (rejected [0, 1, 2, 3, 4, 5, 7, 8]) [None, Some 6, Some 42] \<and>
   collect_votes example_vote_env human_engine (players human_engine)
     [players human_engine ! 6] [] [None, Some 6, Some 42, Some 2, Some 1]
     = Inr ([(6, Some 2)], [Some 1]) \<and>
   collect_votes example_vote_env human_engine (players human_engine)
     [players human_engine ! 6] [] [None, Some 6, Some 42]
     = Inl (EOFError, human_engine) \<and>
   consistent (record_vote 6 (killed 6 human_engine)) \<and>
   map pid (filter alive (players (record_vote 6 (killed 6 human_engine))))
     = [0, 1, 2, 3, 4, 5, 7, 8] \<and>
   process_hunter_shoot Raises 0 [None, Some 6, Some 42, Some 7, Some 1]
     (players human_engine ! 6) (record_vote 6 (killed 6 human_engine))
     = Inr (killed 7 (record_vote 6 (killed 6 human_engine)), [Some 1]) \<and>
   process_hunter_shoot Raises 0 [None, Some 6, Some 42]
     (players human_engine ! 6) (record_vote 6 (killed 6 human_engine))
     = Inl (EOFError, record_vote 6 (killed 6 human_engine))"
proof -
  let ?h = "players human_engine ! 6" and ?e1 = "record_vote 6 (killed 6 human_engine)"
  have pk: "pick 4 (kill_candidates example_engine) = example_players ! 6"
    by (simp add: example_kill_candidates pick_def)
  have pc: "pick 4 (check_candidates (example_players ! 0) example_engine) = example_players ! 5"
    by (simp add: example_check_candidates pick_def)
  have r6: "role (example_players ! 6) = Some HUNTER"
    using role_example_player [of 6] by (simp add: example_roles_def)
  have k: "kill_candidates example_engine \<noteq> []" by (simp add: example_kill_candidates)
  have c: "check_candidates (example_players ! 0) example_engine \<noteq> []"
    by (simp add: example_check_candidates)
  have ai: "enable_ai_mode example_engine"
    "pid (example_players ! 1) \<in> set (ai_players example_engine)"
    "pid (example_players ! 0) \<in> set (ai_players example_engine)"
    by (simp_all add: example_flags pid_example_player)
  have n42: "checked 42 example_engine = example_engine"
    by (rule checked_nobody) (simp add: pids_example)
  have hp: "pid ?h = 6" "\<not> is_ai ?h"
    by (simp_all add: human_players_list pid_example_player)
  have hv: "map pid (filter (\<lambda>p. pid p \<noteq> pid ?h) (players human_engine))
              = [0, 1, 2, 3, 4, 5, 7, 8]"
    unfolding hp by (simp add: human_players_list pid_example_player)
  have h1: "\<not> (is_ai ?h \<and> enable_ai_mode human_engine \<and> pid ?h \<in> set (ai_players human_engine))"
    using hp by simp
  have h2: "\<not> spectator_mode human_engine" "Some (pid ?h) = human_player_id human_engine"
    using hp by (simp_all add: human_flags)
  have rj: "list_all (rejected [0, 1, 2, 3, 4, 5, 7, 8]) [None, Some 6, Some 42]"
    by (simp add: rejected_def)
  have h3: "Some (pid ?h) = human_player_id ?e1" using hp by (simp add: human_after_vote)
  note night = actor_failure_fallback
      [where e = example_engine and w = "example_players ! 1"
         and ws = "[example_players ! 2, example_players ! 7]"
         and seer = "example_players ! 0" and rest = "[]" and r = 4 and t = 42
         and na = NightActions_new]
  note vote = actor_failure_fallback
      [where e = human_engine and voter = ?h and ps = "players human_engine"
         and pre = "[None, Some 6, Some 42]" and s = 2 and post = "[Some 1]"
         and voters = "[]" and vs = "[]" and env = example_vote_env]
  note shot = actor_failure_fallback
      [where e = ?e1 and h = ?h and pre = "[None, Some 6, Some 42]" and s = 7
         and post = "[Some 1]" and ai_h = Raises and rh = 0]
  have w1: "process_werewolf_action Raises 4 example_engine NightActions_new
              = Inr (NightActions_new\<lparr>werewolf_kill := Some 6\<rparr>)"
    and w2: "process_werewolf_action (Returns None) 4 example_engine NightActions_new
              = Inr (NightActions_new\<lparr>werewolf_kill := Some 6\<rparr>)"
    and w3: "process_werewolf_action (Returns (Some 42)) 4 example_engine NightActions_new
              = Inr (NightActions_new\<lparr>werewolf_kill := Some 42\<rparr>)"
    using night example_living_werewolves k ai pk pid_example_player [of 6] by simp_all
  have s1: "process_seer_action Raises 4 example_engine NightActions_new
              = Inr (NightActions_new\<lparr>seer_check := Some 5\<rparr>, checked 5 example_engine)"
    and s3: "process_seer_action (Returns (Some 42)) 4 example_engine NightActions_new
              = Inr (NightActions_new\<lparr>seer_check := Some 42\<rparr>, example_engine)"
    using night example_living_seers c ai pc pid_example_player [of 5] n42 by simp_all
  have v1: "collect_votes example_vote_env human_engine (players human_engine) [?h] []
              [None, Some 6, Some 42, Some 2, Some 1] = Inr ([(6, Some 2)], [Some 1])"
    and v2: "collect_votes example_vote_env human_engine (players human_engine) [?h] []
              [None, Some 6, Some 42] = Inl (EOFError, human_engine)"
    using vote h1 h2 rj unfolding hv by (simp_all add: hp)
  have x1: "process_hunter_shoot Raises 0 [None, Some 6, Some 42, Some 7, Some 1] ?h ?e1
              = Inr (killed 7 ?e1, [Some 1])"
    and x2: "process_hunter_shoot Raises 0 [None, Some 6, Some 42] ?h ?e1
              = Inl (EOFError, ?e1)"
    using shot human_after_vote h3 rj by simp_all
  show ?thesis
    using example_living_werewolves k ai w1 w2 w3 r6 example_living_seers c s1 s3 h1 h2 hv rj
      v1 v2 human_after_vote(1,4) x1 x2
    by blast
qed

lemma night_phase_witch_raises:
  assumes "ai_witch env = Raises" and "enable_ai_mode e"
    and "filter living_witch (players e) = w # ws" and "pid w \<in> set (ai_players e)"
  shows "error_of (process_night_phase env e) = Some ActorError"
proof -
  let ?e0 = "e\<lparr>game_state := (game_state e)\<lparr>phase := NIGHT\<rparr>\<rparr>"
  obtain na1 where w: "process_werewolf_action (ai_werewolf env) (rnd_werewolf env) ?e0
                         NightActions_new = Inr na1"
    using process_werewolf_action_cases by blast
  obtain na2 e2 where s: "process_seer_action (ai_seer env) (rnd_seer env) ?e0 na1 = Inr (na2, e2)"
    and k: "players e2 = players e" "enable_ai_mode e2 = enable_ai_mode e"
           "ai_players e2 = ai_players e"
    using process_seer_action_cases [of "ai_seer env" "rnd_seer env" ?e0 na1]
    by (auto simp: checked_fields)
  have "process_witch_action Raises e2 na2 = Inl (ActorError, e2)"
    using assms k by (simp add: process_witch_action_def Let_def)
  then show ?thesis
    using w s assms(1) by (simp add: process_night_phase_def Let_def error_of_def)
qed

lemma example_no_winner:
  "check_winner (game_state example_engine) (players example_engine) = None"
proof -
  have w: "aliveWerewolves (players example_engine) = 3"
    by (simp add: aliveWerewolves_def players_example_list alive_example_player
        role_example_player example_roles_def)
  have g: "aliveGood (players example_engine) = 6"
    by (simp add: aliveGood_def players_example_list alive_example_player
        role_example_player example_roles_def)
  have n: "winner (game_state example_engine) = None"
    by (simp add: example_engine_def GameState_new_def)
  show ?thesis by (simp add: check_winner_by_counts w g n)
qed

lemma example_loop_crashes:
  "\<exists>e'. run_game_loop [witch_fails] [] example_engine = Some (Inl (ActorError, e'))"
proof -
  have go: "\<not> game_over (game_state example_engine)"
    by (simp add: example_engine_def GameState_new_def)
  have "error_of (process_night_phase (night_env witch_fails) example_engine) = Some ActorError"
    using example_flags(1,3) example_living_witches pid_example_player [of 4]
    by (intro night_phase_witch_raises [where w = "example_players ! 4" and ws = "[]"])
       (simp_all add: witch_fails_def)
  then obtain e' where "process_night_phase (night_env witch_fails) example_engine
                          = Inl (ActorError, e')"
    by (auto simp: error_of_def split: sum.splits)
  then show ?thesis
    using go example_no_winner
    by (subst run_game_loop.simps) simp
qed

text \<open>
  Claim C4 as stated fails. On the nine-player table, a first night in which the witch's
  AI player raises ends the game loop with that exception, and \<^verbatim>\<open>start\<close> ends with an
  error. And an answer that names no player at all (42) is stored as the werewolves'
  target as it is.
\<close>

theorem witch_actor_error_ends_the_game:
  "ai_witch (night_env witch_fails) = Raises \<and>
   map_option error_of (run_game_loop [witch_fails] [] example_engine) = Some (Some ActorError) \<and>
   start 0 (\<lambda>rl. example_roles) True [witch_fails] [] (GameEngine_new True True)
     = Crashed ActorError \<and>
   42 \<notin> set (map pid (players example_engine)) \<and>
   process_werewolf_action (Returns (Some 42)) 0 example_engine NightActions_new
     = Inr (NightActions_new\<lparr>werewolf_kill := Some 42\<rparr>)"
proof -
  have a: "ai_witch (night_env witch_fails) = Raises" by (simp add: witch_fails_def)
  obtain e' where l: "run_game_loop [witch_fails] [] example_engine = Some (Inl (ActorError, e'))"
    using example_loop_crashes by blast
  have m: "map_option error_of (run_game_loop [witch_fails] [] example_engine)
             = Some (Some ActorError)"
    using l by (simp add: error_of_def)
  have s: "start 0 (\<lambda>rl. example_roles) True [witch_fails] [] (GameEngine_new True True)
             = Crashed ActorError"
    using l by (simp add: start_def example_engine_initialized)
  have p: "42 \<notin> set (map pid (players example_engine))" by (simp add: pids_example)
  have k: "kill_candidates example_engine \<noteq> []" by (simp add: example_kill_candidates)
  have w: "process_werewolf_action (Returns (Some 42)) 0 example_engine NightActions_new
             = Inr (NightActions_new\<lparr>werewolf_kill := Some 42\<rparr>)"
    using example_flags(1,3) pid_example_player [of 1]
    by (intro process_werewolf_action_stored [OF example_living_werewolves k]) simp
  show ?thesis using a m s p w by simp
qed

subsection \<open>A poison for player 0\<close>

lemma checked_more_fields:
  "witch_poisoned (game_state (checked t e)) = witch_poisoned (game_state e)"
  "night_actions (game_state (checked t e)) = night_actions (game_state e)"
  by (simp_all add: checked_def split: option.splits)

lemma witch_answer_poison_zero:
  "process_witch_action (Returns \<lparr>save = sv, poison = Some 0\<rparr>) e na
     = process_witch_action (Returns \<lparr>save = sv, poison = None\<rparr>) e na"
proof (cases "filter living_witch (players e)")
  case Nil
  then show ?thesis by (simp add: process_witch_action_def)
next
  case (Cons witch rest)
  then show ?thesis by (simp add: process_witch_action_def truthy_def Let_def)
qed

text \<open>
  Claim C7, at a failing input. The witch's answer is tested by truthiness
  (\<^verbatim>\<open>elif witch_action.get("poison") and can_poison\<close>), so an answer that poisons player 0
  is handled exactly as an answer without a poison. On the nine-player table, with every
  player alive and the witch holding her poison, a night in which the werewolves kill
  player 5 and the witch answers with a poison for player 0 ends with player 5 dead and
  player 0 alive: no poison target is stored, the dead are player 5 alone, and the witch
  still holds the poison.
\<close>

theorem witch_poison_of_player_zero_dropped:
  "process_witch_action (Returns \<lparr>save = sv, poison = Some 0\<rparr>) e na
     = process_witch_action (Returns \<lparr>save = sv, poison = None\<rparr>) e na \<and>
   ai_witch poison_zero_night = Returns \<lparr>save = False, poison = Some 0\<rparr> \<and>
   is_alive 0 example_engine \<and>
   map has_poison (filter living_witch (players example_engine)) = [True] \<and>
   (\<exists>e'. process_night_phase poison_zero_night example_engine = Inr e' \<and>
      is_alive 0 e' \<and> is_dead 5 e' \<and>
      alive_players (game_state e') = [0, 1, 2, 3, 4, 6, 7, 8] \<and>
      dead_players (game_state e') = [5] \<and>
      night_actions (game_state e')
        = Some \<lparr>werewolf_kill = Some 5, seer_check = Some 1, witch_save = None,
                witch_poison = None, hunter_shoot = None\<rparr> \<and>
      witch_poisoned (game_state e') = [] \<and>
      map has_poison (filter living_witch (players e')) = [True])"
proof -
  let ?e0 = "example_engine\<lparr>game_state := (game_state example_engine)\<lparr>phase := NIGHT\<rparr>\<rparr>"
  let ?na1 = "NightActions_new\<lparr>werewolf_kill := Some 5\<rparr>"
  let ?na2 = "?na1\<lparr>seer_check := Some 1\<rparr>"
  let ?e2 = "checked 1 ?e0"
  let ?e3 = "?e2\<lparr>game_state := (game_state ?e2)\<lparr>night_actions := Some ?na2\<rparr>\<rparr>"
  have p0: "players ?e0 = players example_engine" "enable_ai_mode ?e0"
    "ai_players ?e0 = [0, 1, 2, 3, 4, 5, 6, 7, 8]"
    by (simp_all add: example_flags)
  have k: "kill_candidates ?e0 \<noteq> []"
    using example_kill_candidates by (simp add: kill_candidates_def)
  have c: "check_candidates (example_players ! 0) ?e0 \<noteq> []"
    using example_check_candidates by (simp add: check_candidates_def)
  have w: "process_werewolf_action (Returns (Some 5)) 0 ?e0 NightActions_new = Inr ?na1"
    using p0 pid_example_player [of 1]
    by (intro process_werewolf_action_stored
          [where w = "example_players ! 1"
             and ws = "[example_players ! 2, example_players ! 7]"] k)
       (simp_all add: example_living_werewolves)
  have s: "process_seer_action (Returns (Some 1)) 0 ?e0 ?na1 = Inr (?na2, ?e2)"
    using p0 pid_example_player [of 0]
    by (intro process_seer_action_stored [where seer = "example_players ! 0" and rest = "[]"] c)
       (simp_all add: example_living_seers)
  have hp: "has_poison (example_players ! 4)" "has_antidote (example_players ! 4)"
    by (simp_all add: example_players_def Player_new_def)
  have wi: "process_witch_action (Returns \<lparr>save = False, poison = Some 0\<rparr>) ?e2 ?na2
              = Inr (?na2, ?e2)"
    by (simp add: process_witch_action_def checked_fields p0 example_living_witches truthy_def
        Let_def pid_example_player)
  have nd: "night_deaths ?na2 = [5]"
    by (simp add: night_deaths_def NightActions_new_def truthy_def)
  have c3: "consistent ?e3"
    using consistent_example
    by (simp add: consistent_night_actions_field consistent_checked consistent_phase)
  have wp3: "witch_poisoned (game_state ?e3) = []"
    by (simp add: checked_more_fields example_engine_def GameState_new_def)
  have a3: "alive_players (game_state ?e3) = [0, 1, 2, 3, 4, 5, 6, 7, 8]"
    "dead_players (game_state ?e3) = []" "players ?e3 = players example_engine"
    "witch_poisoned (game_state ?e3) = []"
    using wp3 by (simp_all add: checked_fields alive_ids_example example_flags)
  have a5: "5 \<in> set (alive_players (game_state ?e3))" unfolding a3 by simp
  have res: "resolve_night_actions ?na2 ?e3 = Inr (night_killed 5 ?e3)"
    using nd night_death_alive [OF c3 a5] by (simp add: resolve_night_actions_def)
  have run: "process_night_phase poison_zero_night example_engine = Inr (night_killed 5 ?e3)"
    using w s wi res by (simp add: process_night_phase_def poison_zero_night_def Let_def)
  have al: "alive_players (game_state (night_killed 5 ?e3)) = [0, 1, 2, 3, 4, 6, 7, 8]"
    "dead_players (game_state (night_killed 5 ?e3)) = [5]"
    "witch_poisoned (game_state (night_killed 5 ?e3)) = []"
    "night_actions (game_state (night_killed 5 ?e3)) = Some ?na2"
    "players (night_killed 5 ?e3) = mark_dead 5 (players example_engine)"
    using a3 by (simp_all add: night_killed_def killed_def)
  have na: "?na2 = \<lparr>werewolf_kill = Some 5, seer_check = Some 1, witch_save = None,
                witch_poison = None, hunter_shoot = None\<rparr>"
    by (simp add: NightActions_new_def)
  have d5: "is_dead 5 (night_killed 5 ?e3)" by (rule is_dead_night_killed [OF c3 a5])
  have pl: "mark_dead 5 (players example_engine)
              = [example_players ! 0, example_players ! 1, example_players ! 2,
                 example_players ! 3, example_players ! 4, (example_players ! 5)\<lparr>alive := False\<rparr>,
                 example_players ! 6, example_players ! 7, example_players ! 8]"
    by (simp add: players_example_list pid_example_player)
  have a0: "is_alive 0 (night_killed 5 ?e3)"
    unfolding is_alive_def al pl
    by (simp add: pid_example_player alive_example_player)
  have wp: "map has_poison (filter living_witch (players (night_killed 5 ?e3))) = [True]"
    unfolding al pl
    by (simp add: living_witch_def alive_example_player role_example_player example_roles_def hp)
  have wp0: "map has_poison (filter living_witch (players example_engine)) = [True]"
    by (simp add: example_living_witches hp)
  have ex: "\<exists>e'. process_night_phase poison_zero_night example_engine = Inr e' \<and>
      is_alive 0 e' \<and> is_dead 5 e' \<and>
      alive_players (game_state e') = [0, 1, 2, 3, 4, 6, 7, 8] \<and>
      dead_players (game_state e') = [5] \<and>
      night_actions (game_state e')
        = Some \<lparr>werewolf_kill = Some 5, seer_check = Some 1, witch_save = None,
                witch_poison = None, hunter_shoot = None\<rparr> \<and>
      witch_poisoned (game_state e') = [] \<and>
      map has_poison (filter living_witch (players e')) = [True]"
  proof (rule exI [where x = "night_killed 5 ?e3"], intro conjI)
    show "process_night_phase poison_zero_night example_engine = Inr (night_killed 5 ?e3)"
      by (rule run)
    show "is_alive 0 (night_killed 5 ?e3)" by (rule a0)
    show "is_dead 5 (night_killed 5 ?e3)" by (rule d5)
    show "alive_players (game_state (night_killed 5 ?e3)) = [0, 1, 2, 3, 4, 6, 7, 8]"
      by (rule al(1))
    show "dead_players (game_state (night_killed 5 ?e3)) = [5]" by (rule al(2))
    show "night_actions (game_state (night_killed 5 ?e3))
        = Some \<lparr>werewolf_kill = Some 5, seer_check = Some 1, witch_save = None,
                witch_poison = None, hunter_shoot = None\<rparr>"
      using al(4) na by simp
    show "witch_poisoned (game_state (night_killed 5 ?e3)) = []" by (rule al(3))
    show "map has_poison (filter living_witch (players (night_killed 5 ?e3))) = [True]"
      by (rule wp)
  qed
  have aw: "ai_witch poison_zero_night = Returns \<lparr>save = False, poison = Some 0\<rparr>"
    by (simp add: poison_zero_night_def)
  have a00: "is_alive 0 example_engine" using is_alive_example [of 0] by simp
  show ?thesis
    by (intro conjI witch_answer_poison_zero aw a00 wp0 ex)
qed

end
